theory Spec2Isabelle
  imports Complex_Main "HOL-Library.Multiset" "HOL-Library.Sublist" "HOL-Library.Product_Lexorder"
begin

section \<open>Values, records and insertion-ordered dictionaries\<close>

text \<open>
  The aggregation functions of \<^verbatim>\<open>disciplineSummary.py\<close> consume a list of Python
  dictionaries, one per incident.  A field value is \<^verbatim>\<open>None\<close>, a string or an integer;
  on these three kinds of value Python's \<^verbatim>\<open>==\<close> (which decides dictionary keys) is
  structural equality.  Floating-point cells are outside this embedding.  Strings are
  ASCII text: a \<^typ>\<open>char\<close> is one code point below 128.
\<close>

datatype pyval = PNone | PStr string | PInt int

type_synonym row = "string \<rightharpoonup> pyval"

datatype error = ValueError | KeyError | ZeroDivisionError

text \<open>\<^verbatim>\<open>row.get(field, default)\<close>\<close>

definition row_get :: "row \<Rightarrow> string \<Rightarrow> pyval \<Rightarrow> pyval" where
  "row_get r field dflt = (case r field of None \<Rightarrow> dflt | Some v \<Rightarrow> v)"

text \<open>Truth value of an object in a condition, and \<^verbatim>\<open>isinstance(v, str)\<close>.\<close>

fun truthy :: "pyval \<Rightarrow> bool" where
  "truthy PNone = False"
| "truthy (PStr s) = (s \<noteq> [])"
| "truthy (PInt i) = (i \<noteq> 0)"

fun is_str :: "pyval \<Rightarrow> bool" where
  "is_str (PStr s) = True"
| "is_str v = False"

text \<open>The characters of a value that is known to be a string.\<close>

fun the_str :: "pyval \<Rightarrow> string" where
  "the_str (PStr s) = s"
| "the_str v = []"

text \<open>
  A Python \<^verbatim>\<open>dict\<close> iterates in insertion order, and the order of the output rows
  is the order of that iteration, so a dictionary is an association list with distinct
  keys: assigning to a present key replaces its value in place, assigning to a new key
  appends the entry.
\<close>

type_synonym ('k, 'v) dict = "('k \<times> 'v) list"

text \<open>\<^verbatim>\<open>d.get(k, default)\<close>\<close>

definition dict_get :: "('k, 'v) dict \<Rightarrow> 'k \<Rightarrow> 'v \<Rightarrow> 'v" where
  "dict_get d k dflt = (case map_of d k of None \<Rightarrow> dflt | Some v \<Rightarrow> v)"

text \<open>\<^verbatim>\<open>d[k] = v\<close>\<close>

fun dict_set :: "('k, 'v) dict \<Rightarrow> 'k \<Rightarrow> 'v \<Rightarrow> ('k, 'v) dict" where
  "dict_set [] k v = [(k, v)]"
| "dict_set ((k', v') # d) k v = (if k' = k then (k', v) # d else (k', v') # dict_set d k v)"

text \<open>\<^verbatim>\<open>d[k]\<close> on a plain dictionary raises \<^verbatim>\<open>KeyError\<close> for a missing key.\<close>

definition dict_item :: "('k, 'v) dict \<Rightarrow> 'k \<Rightarrow> error + 'v" where
  "dict_item d k = (case map_of d k of None \<Rightarrow> Inl KeyError | Some v \<Rightarrow> Inr v)"

text \<open>
  The counting idiom of every metric, \<^verbatim>\<open>d[k] = d.get(k, 0) + 1\<close>; on a
  \<^verbatim>\<open>defaultdict(int)\<close> the statement \<^verbatim>\<open>d[k] += 1\<close> does the same.
\<close>

definition bump :: "('k, nat) dict \<Rightarrow> 'k \<Rightarrow> ('k, nat) dict" where
  "bump d k = dict_set d k (dict_get d k 0 + 1)"

section \<open>Grade, location and subtype counts\<close>

definition count_by_grade :: "row list \<Rightarrow> (pyval \<times> nat) list" where
  "count_by_grade data =
     foldl (\<lambda>grade_counts row.
              let grade = row_get row ''grade_level'' (PStr ''Unknown'')
              in dict_set grade_counts grade (dict_get grade_counts grade 0 + 1))
        [] data"

definition count_by_location :: "row list \<Rightarrow> (pyval \<times> nat) list" where
  "count_by_location data =
     foldl (\<lambda>location_counts row.
              let location = row_get row ''incident_location'' (PStr ''Unknown'')
              in dict_set location_counts location (dict_get location_counts location 0 + 1))
        [] data"

definition count_by_subtype :: "row list \<Rightarrow> (pyval \<times> nat) list" where
  "count_by_subtype data =
     foldl (\<lambda>subtype_counts row.
              let subtype = row_get row ''subtype_name'' (PStr ''Unknown'')
              in dict_set subtype_counts subtype (dict_get subtype_counts subtype 0 + 1))
        [] data"

section \<open>Clock times\<close>

text \<open>
  \<^verbatim>\<open>datetime.strptime\<close> translates the format into a regular expression, matches it
  at the start of the string with the backtracking matcher of \<^verbatim>\<open>re\<close>, and raises
  \<^verbatim>\<open>ValueError\<close> when there is no match or when the match does not reach the end of
  the string.  A component of the expression is modelled by the list of its possible
  matches at the start of the string, in the order in which the matcher tries them, each
  with the value read and the rest of the string; the match found is the first of the
  sequence of components.
\<close>

definition is_space :: "char \<Rightarrow> bool" where
  "is_space c = (of_char c \<in> {9, 10, 11, 12, 13, 28, 29, 30, 31, 32 :: nat})"

definition strip :: "string \<Rightarrow> string" where
  "strip s = rev (dropWhile is_space (rev (dropWhile is_space s)))"

definition digit_val :: "char \<Rightarrow> nat" where
  "digit_val c = of_char c - 48"

definition digit_in :: "nat \<Rightarrow> nat \<Rightarrow> char \<Rightarrow> bool" where
  "digit_in lo hi c = (48 + lo \<le> (of_char c :: nat) \<and> (of_char c :: nat) \<le> 48 + hi)"

text \<open>The character of a digit below ten.\<close>

definition digit_char :: "nat \<Rightarrow> char" where
  "digit_char n = ''0123456789'' ! n"

definition lower_char :: "char \<Rightarrow> char" where
  "lower_char c =
     (case map_of (zip ''ABCDEFGHIJKLMNOPQRSTUVWXYZ'' ''abcdefghijklmnopqrstuvwxyz'') c of
        None \<Rightarrow> c
      | Some l \<Rightarrow> l)"

definition lower :: "string \<Rightarrow> string" where
  "lower s = map lower_char s"

text \<open>Two digits, the first in \<^verbatim>\<open>[a-b]\<close> and the second in \<^verbatim>\<open>[c-d]\<close>; one digit.\<close>

definition rx_two :: "nat \<Rightarrow> nat \<Rightarrow> nat \<Rightarrow> nat \<Rightarrow> string \<Rightarrow> (nat \<times> string) list" where
  "rx_two a b c d s =
     (case s of
        x # y # r \<Rightarrow> if digit_in a b x \<and> digit_in c d y
                      then [(10 * digit_val x + digit_val y, r)] else []
      | _ \<Rightarrow> [])"

definition rx_one :: "nat \<Rightarrow> nat \<Rightarrow> string \<Rightarrow> (nat \<times> string) list" where
  "rx_one a b s = (case s of x # r \<Rightarrow> if digit_in a b x then [(digit_val x, r)] else [] | [] \<Rightarrow> [])"

text \<open>\<^verbatim>\<open>%I\<close> and \<^verbatim>\<open>%m\<close> are \<^verbatim>\<open>1[0-2]|0[1-9]|[1-9]\<close>.\<close>

definition rx_I :: "string \<Rightarrow> (nat \<times> string) list" where
  "rx_I s = rx_two 1 1 0 2 s @ rx_two 0 0 1 9 s @ rx_one 1 9 s"

text \<open>\<^verbatim>\<open>%H\<close> is \<^verbatim>\<open>2[0-3]|[0-1]\d|\d\<close>.\<close>

definition rx_H :: "string \<Rightarrow> (nat \<times> string) list" where
  "rx_H s = rx_two 2 2 0 3 s @ rx_two 0 1 0 9 s @ rx_one 0 9 s"

text \<open>\<^verbatim>\<open>%M\<close> is \<^verbatim>\<open>[0-5]\d|\d\<close>.\<close>

definition rx_M :: "string \<Rightarrow> (nat \<times> string) list" where
  "rx_M s = rx_two 0 5 0 9 s @ rx_one 0 9 s"

text \<open>\<^verbatim>\<open>%S\<close> is \<^verbatim>\<open>6[0-1]|[0-5]\d|\d\<close>.\<close>

definition rx_S :: "string \<Rightarrow> (nat \<times> string) list" where
  "rx_S s = rx_two 6 6 0 1 s @ rx_two 0 5 0 9 s @ rx_one 0 9 s"

text \<open>\<^verbatim>\<open>%p\<close> is \<^verbatim>\<open>am|pm\<close>, matched without regard to case; the value is whether
  the match is \<^verbatim>\<open>pm\<close>.\<close>

definition rx_p :: "string \<Rightarrow> (bool \<times> string) list" where
  "rx_p s =
     (case s of
        x # y # r \<Rightarrow>
          if lower_char y = CHR ''m'' \<and> lower_char x = CHR ''a'' then [(False, r)]
          else if lower_char y = CHR ''m'' \<and> lower_char x = CHR ''p'' then [(True, r)]
          else []
      | _ \<Rightarrow> [])"

text \<open>A literal character of the format.\<close>

definition rx_lit :: "char \<Rightarrow> string \<Rightarrow> string list" where
  "rx_lit c s = (case s of x # r \<Rightarrow> if x = c then [r] else [] | [] \<Rightarrow> [])"

text \<open>A blank of the format is \<^verbatim>\<open>\s+\<close>: one or more white-space characters, the
  longest run first.\<close>

definition rx_spaces :: "string \<Rightarrow> string list" where
  "rx_spaces s = map (\<lambda>k. drop k s) (rev [1 ..< Suc (length (takeWhile is_space s))])"

text \<open>
  A \<^verbatim>\<open>datetime\<close> is (year, month, day, hour, minute, second), compared
  lexicographically.  A time parsed without a date is on 1 January 1900.
\<close>

type_synonym datetime = "nat \<times> nat \<times> nat \<times> nat \<times> nat \<times> nat"

definition datetime_max :: datetime where
  "datetime_max = (9999, 12, 31, 23, 59, 59)"

definition dt_hour :: "datetime \<Rightarrow> nat" where
  "dt_hour t = (case t of (y, mo, d, h, mi, s) \<Rightarrow> h)"

text \<open>The hour of the day from \<^verbatim>\<open>%I\<close> and \<^verbatim>\<open>%p\<close>: 12 AM is hour 0, 12 PM is
  hour 12.\<close>

definition hour_of_I :: "nat \<Rightarrow> bool \<Rightarrow> nat" where
  "hour_of_I i pm = (if pm then (if i \<noteq> 12 then i + 12 else i) else (if i = 12 then 0 else i))"

text \<open>The four formats the program parses with.\<close>

datatype time_format =
    F_IMSp  \<comment> \<open>\<^verbatim>\<open>"%I:%M:%S %p"\<close>\<close>
  | F_IMp   \<comment> \<open>\<^verbatim>\<open>"%I:%M %p"\<close>\<close>
  | F_HM    \<comment> \<open>\<^verbatim>\<open>"%H:%M"\<close>\<close>
  | F_Ip    \<comment> \<open>\<^verbatim>\<open>"%I%p"\<close>\<close>

text \<open>The matches of the whole expression: hour, minute, second and the unmatched rest.\<close>

fun format_matches :: "time_format \<Rightarrow> string \<Rightarrow> ((nat \<times> nat \<times> nat) \<times> string) list" where
  "format_matches F_IMSp s =
     [((hour_of_I i pm, m, sec), s7).
        (i, s1) \<leftarrow> rx_I s, s2 \<leftarrow> rx_lit CHR '':'' s1, (m, s3) \<leftarrow> rx_M s2,
        s4 \<leftarrow> rx_lit CHR '':'' s3, (sec, s5) \<leftarrow> rx_S s4, s6 \<leftarrow> rx_spaces s5,
        (pm, s7) \<leftarrow> rx_p s6]"
| "format_matches F_IMp s =
     [((hour_of_I i pm, m, 0), s5).
        (i, s1) \<leftarrow> rx_I s, s2 \<leftarrow> rx_lit CHR '':'' s1, (m, s3) \<leftarrow> rx_M s2,
        s4 \<leftarrow> rx_spaces s3, (pm, s5) \<leftarrow> rx_p s4]"
| "format_matches F_HM s =
     [((h, m, 0), s3).
        (h, s1) \<leftarrow> rx_H s, s2 \<leftarrow> rx_lit CHR '':'' s1, (m, s3) \<leftarrow> rx_M s2]"
| "format_matches F_Ip s =
     [((hour_of_I i pm, 0, 0), s2). (i, s1) \<leftarrow> rx_I s, (pm, s2) \<leftarrow> rx_p s1]"

text \<open>
  \<^verbatim>\<open>datetime.strptime(s, format)\<close>; \<^term>\<open>None\<close> is \<^verbatim>\<open>ValueError\<close>: no match,
  unconverted data after the match, or a second of 60 or 61, which the expression
  accepts and the \<^verbatim>\<open>datetime\<close> constructor refuses.
\<close>

definition strptime :: "string \<Rightarrow> time_format \<Rightarrow> datetime option" where
  "strptime s fmt =
     (case format_matches fmt s of
        [] \<Rightarrow> None
      | ((h, m, sec), rest) # _ \<Rightarrow>
          if rest \<noteq> [] then None
          else if 59 < sec then None
          else Some (1900, 1, 1, h, m, sec))"

text \<open>\<^verbatim>\<open>t.strftime("%I%p")\<close>: the hour on the 12-hour clock in two digits, then
  \<^verbatim>\<open>AM\<close> or \<^verbatim>\<open>PM\<close>.\<close>

definition pad2 :: "nat \<Rightarrow> string" where
  "pad2 n = [digit_char (n div 10), digit_char (n mod 10)]"

definition strftime_Ip :: "datetime \<Rightarrow> string" where
  "strftime_Ip t =
     pad2 (if dt_hour t mod 12 = 0 then 12 else dt_hour t mod 12)
       @ (if dt_hour t < 12 then ''AM'' else ''PM'')"

text \<open>\<^verbatim>\<open>s.lstrip("0")\<close>\<close>

definition lstrip_zero :: "string \<Rightarrow> string" where
  "lstrip_zero s = dropWhile (\<lambda>c. c = CHR ''0'') s"

text \<open>The label \<^verbatim>\<open>time_obj.strftime("%I%p").lower().lstrip("0")\<close>.\<close>

definition hour_label :: "datetime \<Rightarrow> string" where
  "hour_label t = lstrip_zero (lower (strftime_Ip t))"

section \<open>Hour counts\<close>

text \<open>What the program prints is kept as a list of lines, identified by their fixed part
  and the value printed with it.\<close>

datatype log_line =
    FailedToParseTime string
  | InvalidDateFormat string
  | InvalidOrMissingDate row
  | ErrorReparsingDate string

record hour_state =
  hour_counts :: "(string \<times> nat) list"
  printed :: "log_line list"

text \<open>The body of the loop of \<^verbatim>\<open>count_by_hour\<close>.  The branch in which all three
  formats fail counts under \<^verbatim>\<open>"Unknown"\<close> itself and continues with the next row.\<close>

definition count_by_hour_row :: "hour_state \<Rightarrow> row \<Rightarrow> hour_state" where
  "count_by_hour_row st row =
     (let time_str = row_get row ''incident_time'' PNone in
      if truthy time_str \<and> is_str time_str then
        (case strptime (strip (the_str time_str)) F_IMSp of
           Some time_obj \<Rightarrow>
             st\<lparr>hour_counts := bump (hour_counts st) (hour_label time_obj)\<rparr>
         | None \<Rightarrow>
            (case strptime (strip (the_str time_str)) F_IMp of
               Some time_obj \<Rightarrow>
                 st\<lparr>hour_counts := bump (hour_counts st) (hour_label time_obj)\<rparr>
             | None \<Rightarrow>
                (case strptime (strip (the_str time_str)) F_HM of
                   Some time_obj \<Rightarrow>
                     st\<lparr>hour_counts := bump (hour_counts st) (hour_label time_obj)\<rparr>
                 | None \<Rightarrow>
                     st\<lparr>hour_counts := bump (hour_counts st) ''Unknown'',
                        printed := printed st @ [FailedToParseTime (the_str time_str)]\<rparr>)))
      else st\<lparr>hour_counts := bump (hour_counts st) ''Unknown''\<rparr>)"

text \<open>\<^verbatim>\<open>sorted(xs, key=f)\<close> computes the key of every element, which raises what
  \<^verbatim>\<open>f\<close> raises, and then sorts stably by the keys.\<close>

fun keyed :: "('a \<Rightarrow> 'k option) \<Rightarrow> 'a list \<Rightarrow> ('k \<times> 'a) list option" where
  "keyed f [] = Some []"
| "keyed f (x # xs) =
     (case f x of
        None \<Rightarrow> None
      | Some k \<Rightarrow> (case keyed f xs of None \<Rightarrow> None | Some kxs \<Rightarrow> Some ((k, x) # kxs)))"

definition sorted_by :: "('a \<Rightarrow> ('k::linorder) option) \<Rightarrow> 'a list \<Rightarrow> error + 'a list" where
  "sorted_by f xs =
     (case keyed f xs of None \<Rightarrow> Inl ValueError | Some kxs \<Rightarrow> Inr (map snd (sort_key fst kxs)))"

text \<open>The comprehension \<^verbatim>\<open>[{"Hour": h, "Count": hour_counts[h]} for h in sorted_hours]\<close>.\<close>

fun rows_for :: "('k \<times> 'v) list \<Rightarrow> 'k list \<Rightarrow> error + ('k \<times> 'v) list" where
  "rows_for d [] = Inr []"
| "rows_for d (k # ks) =
     (case dict_item d k of
        Inl e \<Rightarrow> Inl e
      | Inr v \<Rightarrow> (case rows_for d ks of Inl e \<Rightarrow> Inl e | Inr rs \<Rightarrow> Inr ((k, v) # rs)))"

definition count_by_hour_loop :: "row list \<Rightarrow> hour_state" where
  "count_by_hour_loop data = foldl count_by_hour_row \<lparr>hour_counts = [], printed = []\<rparr> data"

definition count_by_hour :: "row list \<Rightarrow> error + (string \<times> nat) list" where
  "count_by_hour data =
     (let counts = hour_counts (count_by_hour_loop data);
          counts = dict_set counts ''Unknown'' (dict_get counts ''Unknown'' 0)
      in case sorted_by (\<lambda>x. strptime x F_Ip) (filter (\<lambda>h. h \<noteq> ''Unknown'') (map fst counts)) of
           Inl e \<Rightarrow> Inl e
         | Inr sorted_hours \<Rightarrow> rows_for counts (sorted_hours @ [''Unknown'']))"

text \<open>The lines \<^verbatim>\<open>count_by_hour\<close> prints.\<close>

definition count_by_hour_printed :: "row list \<Rightarrow> log_line list" where
  "count_by_hour_printed data = printed (count_by_hour_loop data)"

section \<open>Calendar dates\<close>

text \<open>
  \<^verbatim>\<open>pd.to_datetime(s, format=f, errors="coerce")\<close> on a string matches the format
  as \<^verbatim>\<open>strptime\<close> does, with the whole string to be consumed, and then requires the
  day to exist in its month and the date to lie within the bounds of a nanosecond
  \<^verbatim>\<open>Timestamp\<close>; otherwise the result is \<^verbatim>\<open>NaT\<close>, here \<^term>\<open>None\<close>.  A date
  is (year, month, day).
\<close>

type_synonym date = "nat \<times> nat \<times> nat"

text \<open>\<^verbatim>\<open>%d\<close> is \<^verbatim>\<open>3[0-1]|[1-2]\d|0[1-9]|[1-9]| [1-9]\<close>.\<close>

definition rx_d :: "string \<Rightarrow> (nat \<times> string) list" where
  "rx_d s = rx_two 3 3 0 1 s @ rx_two 1 2 0 9 s @ rx_two 0 0 1 9 s @ rx_one 1 9 s
              @ (case s of x # r \<Rightarrow> if x = CHR '' '' then rx_one 1 9 r else [] | [] \<Rightarrow> [])"

text \<open>\<^verbatim>\<open>%Y\<close> is \<^verbatim>\<open>\d\d\d\d\<close>.\<close>

definition rx_Y :: "string \<Rightarrow> (nat \<times> string) list" where
  "rx_Y s =
     (case s of
        a # b # c # d # r \<Rightarrow>
          if digit_in 0 9 a \<and> digit_in 0 9 b \<and> digit_in 0 9 c \<and> digit_in 0 9 d
          then [(1000 * digit_val a + 100 * digit_val b + 10 * digit_val c + digit_val d, r)]
          else []
      | _ \<Rightarrow> [])"

text \<open>The two formats the program parses dates with.\<close>

datatype date_format =
    F_slash  \<comment> \<open>\<^verbatim>\<open>"%m/%d/%Y"\<close>\<close>
  | F_dash   \<comment> \<open>\<^verbatim>\<open>"%m-%d-%Y"\<close>\<close>

fun separator :: "date_format \<Rightarrow> char" where
  "separator F_slash = CHR ''/''"
| "separator F_dash = CHR ''-''"

definition date_matches :: "date_format \<Rightarrow> string \<Rightarrow> (date \<times> string) list" where
  "date_matches fmt s =
     [((y, m, d), s5).
        (m, s1) \<leftarrow> rx_I s, s2 \<leftarrow> rx_lit (separator fmt) s1, (d, s3) \<leftarrow> rx_d s2,
        s4 \<leftarrow> rx_lit (separator fmt) s3, (y, s5) \<leftarrow> rx_Y s4]"

definition is_leap :: "nat \<Rightarrow> bool" where
  "is_leap y = (y mod 4 = 0 \<and> (y mod 100 \<noteq> 0 \<or> y mod 400 = 0))"

definition days_in_month :: "nat \<Rightarrow> nat \<Rightarrow> nat" where
  "days_in_month y m =
     (if m = 2 then (if is_leap y then 29 else 28)
      else if m = 4 \<or> m = 6 \<or> m = 9 \<or> m = 11 then 30 else 31)"

text \<open>The first and the last day that a nanosecond \<^verbatim>\<open>Timestamp\<close> can hold at
  midnight.\<close>

definition in_bounds :: "date \<Rightarrow> bool" where
  "in_bounds d = ((1677, 9, 22) \<le> d \<and> d \<le> (2262, 4, 11))"

definition to_datetime :: "string \<Rightarrow> date_format \<Rightarrow> date option" where
  "to_datetime s fmt =
     (case date_matches fmt s of
        [] \<Rightarrow> None
      | ((y, m, d), rest) # _ \<Rightarrow>
          if rest \<noteq> [] then None
          else if days_in_month y m < d then None
          else if \<not> in_bounds (y, m, d) then None
          else Some (y, m, d))"

text \<open>\<^verbatim>\<open>date_obj.strftime("%m/%d/%Y")\<close>\<close>

definition pad4 :: "nat \<Rightarrow> string" where
  "pad4 n = [digit_char (n div 1000), digit_char (n div 100 mod 10), digit_char (n div 10 mod 10),
             digit_char (n mod 10)]"

definition strftime_mdY :: "date \<Rightarrow> string" where
  "strftime_mdY dt = (case dt of (y, m, d) \<Rightarrow> pad2 m @ ''/'' @ pad2 d @ ''/'' @ pad4 y)"

text \<open>The day of the week in the proleptic Gregorian calendar: the number of the day,
  counted from 1 January of year 1, which is a Monday.\<close>

definition days_before_year :: "nat \<Rightarrow> nat" where
  "days_before_year y = 365 * (y - 1) + (y - 1) div 4 - (y - 1) div 100 + (y - 1) div 400"

definition days_before_month :: "nat \<Rightarrow> nat \<Rightarrow> nat" where
  "days_before_month y m = sum_list (map (days_in_month y) [1 ..< m])"

definition toordinal :: "date \<Rightarrow> nat" where
  "toordinal dt = (case dt of (y, m, d) \<Rightarrow> days_before_year y + days_before_month y m + d)"

definition weekday :: "date \<Rightarrow> nat" where
  "weekday dt = (toordinal dt + 6) mod 7"

definition week_order :: "string list" where
  "week_order = [''Monday'', ''Tuesday'', ''Wednesday'', ''Thursday'', ''Friday'', ''Saturday'',
                 ''Sunday'']"

text \<open>\<^verbatim>\<open>date_obj.strftime("%A")\<close>\<close>

definition strftime_A :: "date \<Rightarrow> string" where
  "strftime_A dt = week_order ! weekday dt"

section \<open>Date counts and day-of-week averages\<close>

record date_state =
  date_counts :: "(string \<times> nat) list"
  day_totals :: "(string \<times> nat) list"
  date_printed :: "log_line list"

text \<open>The body of the first loop of \<^verbatim>\<open>count_by_date\<close>.  With
  \<^verbatim>\<open>errors="coerce"\<close> nothing in the guarded block raises, so the handler of the
  block has no branch here.\<close>

definition count_by_date_row :: "date_state \<Rightarrow> row \<Rightarrow> date_state" where
  "count_by_date_row st row =
     (let date_str = row_get row ''incident_date'' PNone in
      if truthy date_str \<and> is_str date_str then
        (let date_obj = to_datetime (the_str date_str) F_slash;
             date_obj = (if date_obj = None then to_datetime (the_str date_str) F_dash
                         else date_obj)
         in case date_obj of
              None \<Rightarrow> st\<lparr>date_printed := date_printed st @ [InvalidDateFormat (the_str date_str)]\<rparr>
            | Some d \<Rightarrow>
                st\<lparr>date_counts := bump (date_counts st) (strftime_mdY d),
                   day_totals := bump (day_totals st) (strftime_A d)\<rparr>)
      else st\<lparr>date_printed := date_printed st @ [InvalidOrMissingDate row]\<rparr>)"

text \<open>The second loop parses every counted date again, with errors raised and caught, and
  counts the distinct dates of each day of the week.\<close>

definition day_counts_item ::
  "(string \<times> nat) list \<times> log_line list \<Rightarrow> string \<times> nat \<Rightarrow> (string \<times> nat) list \<times> log_line list"
  where
  "day_counts_item acc item =
     (case acc of (day_counts, out) \<Rightarrow>
        (case to_datetime (fst item) F_slash of
           None \<Rightarrow> (day_counts, out @ [ErrorReparsingDate (fst item)])
         | Some date_obj \<Rightarrow> (bump day_counts (strftime_A date_obj), out)))"

text \<open>
  The third loop divides.  \<^verbatim>\<open>day_counts\<close> is a \<^verbatim>\<open>defaultdict(int)\<close>, so a day
  that is missing from it reads as 0 and the division raises.  The quotient is a float
  and is rounded as a float; the embedding does not interpret floats, and the function
  \<open>round_div\<close> stands for \<^verbatim>\<open>round(total / day_counts[day], 2)\<close> with \<open>count\<close> positive.
\<close>

fun averages ::
  "(nat \<Rightarrow> nat \<Rightarrow> 'f) \<Rightarrow> (string \<times> nat) list \<Rightarrow> (string \<times> nat) list \<Rightarrow> error + (string \<times> 'f) list"
  where
  "averages round_div day_counts [] = Inr []"
| "averages round_div day_counts ((day, day_total) # rest) =
     (if dict_get day_counts day 0 = 0 then Inl ZeroDivisionError
      else case averages round_div day_counts rest of
             Inl e \<Rightarrow> Inl e
           | Inr avgs \<Rightarrow> Inr ((day, round_div day_total (dict_get day_counts day 0)) # avgs))"

text \<open>\<^verbatim>\<open>xs.index(x)\<close>; \<^term>\<open>None\<close> is \<^verbatim>\<open>ValueError\<close>.\<close>

fun index_of :: "'a list \<Rightarrow> 'a \<Rightarrow> nat option" where
  "index_of [] x = None"
| "index_of (y # ys) x = (if y = x then Some 0 else map_option Suc (index_of ys x))"

record 'f date_result =
  date_count_rows :: "(string \<times> nat) list"
  day_of_week_avg :: "(string \<times> 'f) list"

definition count_by_date_loop :: "row list \<Rightarrow> date_state" where
  "count_by_date_loop data =
     foldl count_by_date_row \<lparr>date_counts = [], day_totals = [], date_printed = []\<rparr> data"

definition count_by_date :: "(nat \<Rightarrow> nat \<Rightarrow> 'f) \<Rightarrow> row list \<Rightarrow> error + 'f date_result" where
  "count_by_date round_div data =
     (let st = count_by_date_loop data;
          day_counts = fst (foldl day_counts_item ([], date_printed st) (date_counts st))
      in case averages round_div day_counts (day_totals st) of
           Inl e \<Rightarrow> Inl e
         | Inr avgs \<Rightarrow>
            (case sorted_by (\<lambda>x. index_of week_order (fst x)) avgs of
               Inl e \<Rightarrow> Inl e
             | Inr sorted_avgs \<Rightarrow>
                 Inr \<lparr>date_count_rows = date_counts st, day_of_week_avg = sorted_avgs\<rparr>))"

text \<open>The lines \<^verbatim>\<open>count_by_date\<close> prints.\<close>

definition count_by_date_printed :: "row list \<Rightarrow> log_line list" where
  "count_by_date_printed data =
     (let st = count_by_date_loop data
      in snd (foldl day_counts_item ([], date_printed st) (date_counts st)))"

section \<open>Hour by location breakdown\<close>

text \<open>\<^verbatim>\<open>str(v)\<close>: a string is itself, an integer is written in decimal.\<close>

fun decimal :: "nat \<Rightarrow> string" where
  "decimal n = (if n < 10 then [digit_char n] else decimal (n div 10) @ [digit_char (n mod 10)])"

fun py_str :: "pyval \<Rightarrow> string" where
  "py_str PNone = ''None''"
| "py_str (PStr s) = s"
| "py_str (PInt i) = (if i < 0 then CHR ''-'' # decimal (nat (- i)) else decimal (nat i))"

text \<open>The body of the loop of \<^verbatim>\<open>hourly_location\<close>.  The counts are a dictionary of
  dictionaries, both created on first access.\<close>

definition hourly_location_row ::
  "(string \<times> (pyval \<times> nat) list) list \<Rightarrow> row \<Rightarrow> (string \<times> (pyval \<times> nat) list) list" where
  "hourly_location_row hourly_location_counts row =
     (let incident_time = row_get row ''incident_time'' PNone;
          location = row_get row ''incident_location'' (PStr ''Unknown'');
          incident_time = (if incident_time \<noteq> PNone then PStr (strip (py_str incident_time))
                           else incident_time);
          hour = (if truthy incident_time then
                    (case strptime (the_str incident_time) F_IMp of
                       Some time_obj \<Rightarrow> hour_label time_obj
                     | None \<Rightarrow> ''Unknown'')
                  else ''Unknown'')
      in dict_set hourly_location_counts hour
           (bump (dict_get hourly_location_counts hour []) location))"

definition hourly_location :: "row list \<Rightarrow> error + (string \<times> pyval \<times> nat) list" where
  "hourly_location data =
     (let hourly_location_counts = foldl hourly_location_row [] data in
      case sorted_by (\<lambda>x. if fst x \<noteq> ''Unknown'' then strptime (fst x) F_Ip else Some datetime_max)
             hourly_location_counts of
        Inl e \<Rightarrow> Inl e
      | Inr groups \<Rightarrow>
          Inr (concat (map (\<lambda>(hour, locations).
                              map (\<lambda>(location, count). (hour, location, count)) locations)
                         groups)))"

section \<open>Rankings\<close>

text \<open>
  \<^verbatim>\<open>sorted(items, key=f, reverse=True)\<close>: the stable sort applied to the reversed
  list, reversed again, so that items with equal keys keep their original order.
\<close>

definition sorted_reverse :: "('a \<Rightarrow> 'k::linorder) \<Rightarrow> 'a list \<Rightarrow> 'a list" where
  "sorted_reverse f xs = rev (sort_key f (rev xs))"

text \<open>The slice \<^verbatim>\<open>xs[:n]\<close>; a negative bound counts from the end.\<close>

definition slice_to :: "'a list \<Rightarrow> int \<Rightarrow> 'a list" where
  "slice_to xs n = (if 0 \<le> n then take (nat n) xs else take (nat (int (length xs) + n)) xs)"

definition student_counts :: "row list \<Rightarrow> (pyval \<times> nat) list" where
  "student_counts data =
     foldl (\<lambda>counts row.
              let student = row_get row ''student_name'' (PStr ''Unknown'')
              in dict_set counts student (dict_get counts student 0 + 1))
        [] data"

definition top_students :: "row list \<Rightarrow> int \<Rightarrow> (pyval \<times> nat) list" where
  "top_students data top_n = slice_to (sorted_reverse snd (student_counts data)) top_n"

definition author_counts :: "row list \<Rightarrow> (pyval \<times> nat) list" where
  "author_counts data =
     foldl (\<lambda>counts row.
              let author = row_get row ''entry_author'' (PStr ''Unknown'')
              in dict_set counts author (dict_get counts author 0 + 1))
        [] data"

definition top_authors :: "row list \<Rightarrow> int \<Rightarrow> (pyval \<times> nat) list" where
  "top_authors data top_n = slice_to (sorted_reverse snd (author_counts data)) top_n"

section \<open>The orchestrator\<close>

text \<open>The eight metrics under their fixed names; an exception of a metric function ends
  the run.\<close>

record 'f metrics =
  incidents_by_grade :: "(pyval \<times> nat) list"
  incidents_by_location :: "(pyval \<times> nat) list"
  incidents_by_hour :: "(string \<times> nat) list"
  incidents_by_date :: "'f date_result"
  incidents_by_subtype :: "(pyval \<times> nat) list"
  top_students_rows :: "(pyval \<times> nat) list"
  top_authors_rows :: "(pyval \<times> nat) list"
  incidents_by_loc_hour :: "(string \<times> pyval \<times> nat) list"

definition calculate_summary_metrics :: "(nat \<Rightarrow> nat \<Rightarrow> 'f) \<Rightarrow> row list \<Rightarrow> error + 'f metrics" where
  "calculate_summary_metrics round_div data =
     (case count_by_hour data of
        Inl e \<Rightarrow> Inl e
      | Inr by_hour \<Rightarrow>
         (case count_by_date round_div data of
            Inl e \<Rightarrow> Inl e
          | Inr by_date \<Rightarrow>
             (case hourly_location data of
                Inl e \<Rightarrow> Inl e
              | Inr by_loc_hour \<Rightarrow>
                  Inr \<lparr>incidents_by_grade = count_by_grade data,
                       incidents_by_location = count_by_location data,
                       incidents_by_hour = by_hour,
                       incidents_by_date = by_date,
                       incidents_by_subtype = count_by_subtype data,
                       top_students_rows = top_students data 15,
                       top_authors_rows = top_authors data 10,
                       incidents_by_loc_hour = by_loc_hour\<rparr>)))"

section \<open>Partitioning by building\<close>

text \<open>
  The grouping loop of \<^verbatim>\<open>generate_building_reports\<close>; the reports are then produced
  by iterating over the items of the dictionary it builds.
\<close>

definition building_groups :: "row list \<Rightarrow> (pyval \<times> row list) list" where
  "building_groups data =
     foldl (\<lambda>groups row.
              let building_name = row_get row ''student_school'' (PStr ''Unknown Building'');
                  groups' = (if building_name \<notin> set (map fst groups)
                             then dict_set groups building_name [] else groups)
              in dict_set groups' building_name (dict_get groups' building_name [] @ [row]))
        [] data"

section \<open>Vocabulary of the specification\<close>

text \<open>The distinct values of a sequence, in the order of their first appearance.\<close>

definition first_seen :: "'a list \<Rightarrow> 'a list" where
  "first_seen xs = rev (remdups (rev xs))"

definition grade_key :: "row \<Rightarrow> pyval" where
  "grade_key r = (case r ''grade_level'' of None \<Rightarrow> PStr ''Unknown'' | Some v \<Rightarrow> v)"

definition location_key :: "row \<Rightarrow> pyval" where
  "location_key r = (case r ''incident_location'' of None \<Rightarrow> PStr ''Unknown'' | Some v \<Rightarrow> v)"

definition subtype_key :: "row \<Rightarrow> pyval" where
  "subtype_key r = (case r ''subtype_name'' of None \<Rightarrow> PStr ''Unknown'' | Some v \<Rightarrow> v)"

definition student_key :: "row \<Rightarrow> pyval" where
  "student_key r = (case r ''student_name'' of None \<Rightarrow> PStr ''Unknown'' | Some v \<Rightarrow> v)"

definition author_key :: "row \<Rightarrow> pyval" where
  "author_key r = (case r ''entry_author'' of None \<Rightarrow> PStr ''Unknown'' | Some v \<Rightarrow> v)"

definition school_key :: "row \<Rightarrow> pyval" where
  "school_key r = (case r ''student_school'' of None \<Rightarrow> PStr ''Unknown Building'' | Some v \<Rightarrow> v)"

text \<open>The value of the variable \<^verbatim>\<open>hour\<close> under which the loop of
  \<^verbatim>\<open>count_by_hour\<close> counts a row.\<close>

definition hour_bucket :: "row \<Rightarrow> string" where
  "hour_bucket row =
     (let time_str = row_get row ''incident_time'' PNone in
      if truthy time_str \<and> is_str time_str then
        (case strptime (strip (the_str time_str)) F_IMSp of
           Some time_obj \<Rightarrow> hour_label time_obj
         | None \<Rightarrow>
            (case strptime (strip (the_str time_str)) F_IMp of
               Some time_obj \<Rightarrow> hour_label time_obj
             | None \<Rightarrow>
                (case strptime (strip (the_str time_str)) F_HM of
                   Some time_obj \<Rightarrow> hour_label time_obj
                 | None \<Rightarrow> ''Unknown'')))
      else ''Unknown'')"

text \<open>The value of the variable \<^verbatim>\<open>hour\<close> under which the loop of
  \<^verbatim>\<open>hourly_location\<close> counts a row.\<close>

definition location_hour :: "row \<Rightarrow> string" where
  "location_hour row =
     (let incident_time = row_get row ''incident_time'' PNone;
          incident_time = (if incident_time \<noteq> PNone then PStr (strip (py_str incident_time))
                           else incident_time)
      in if truthy incident_time then
           (case strptime (the_str incident_time) F_IMp of
              Some time_obj \<Rightarrow> hour_label time_obj
            | None \<Rightarrow> ''Unknown'')
         else ''Unknown'')"

text \<open>The sort keys of the two hour-ordered outputs.\<close>

definition hour_key :: "string \<Rightarrow> datetime" where
  "hour_key x = the (strptime x F_Ip)"

definition group_key :: "string \<Rightarrow> datetime" where
  "group_key x = (if x \<noteq> ''Unknown'' then the (strptime x F_Ip) else datetime_max)"




text \<open>The Calendar Date of a record: the date the loop of \<^verbatim>\<open>count_by_date\<close>
  counts the record under, if any.\<close>

definition row_date :: "row \<Rightarrow> date option" where
  "row_date row =
     (let date_str = row_get row ''incident_date'' PNone in
      if truthy date_str \<and> is_str date_str then
        (case to_datetime (the_str date_str) F_slash of
           Some d \<Rightarrow> Some d
         | None \<Rightarrow> to_datetime (the_str date_str) F_dash)
      else None)"

text \<open>The dates of the records that have one, in input order.\<close>

definition parsed_dates :: "row list \<Rightarrow> date list" where
  "parsed_dates data = List.map_filter row_date data"

text \<open>An exact quotient rounded half to even at two decimals: an instance of the rounding
  function for calculations by hand.\<close>

definition exact_round_div :: "nat \<Rightarrow> nat \<Rightarrow> rat" where
  "exact_round_div day_total n =
     (let q = (100 * of_nat day_total) / (of_nat n :: rat);
          f = \<lfloor>q\<rfloor>;
          r = q - of_int f
      in of_int (if r < 1 / 2 \<or> (r = 1 / 2 \<and> even f) then f else f + 1) / 100)"

text \<open>What a date satisfies that the program has parsed.\<close>

definition valid_date :: "date \<Rightarrow> bool" where
  "valid_date dt = (case dt of (y, m, d) \<Rightarrow>
     1 \<le> m \<and> m \<le> 12 \<and> 1 \<le> d \<and> d \<le> days_in_month y m \<and> in_bounds (y, m, d))"

section \<open>A small data set\<close>

text \<open>Three incidents at two buildings, used to evaluate the functions on concrete input.\<close>

definition scenario :: "row list" where
  "scenario =
     [[''incident_time'' \<mapsto> PStr ''2:30 PM'', ''incident_location'' \<mapsto> PStr ''Gym'',
       ''student_school'' \<mapsto> PStr ''East''],
      [''incident_time'' \<mapsto> PStr ''2:45 PM'', ''incident_location'' \<mapsto> PStr ''Gym'',
       ''student_school'' \<mapsto> PStr ''East''],
      [''incident_time'' \<mapsto> PStr ''9:00 AM'', ''incident_location'' \<mapsto> PStr ''Hall'',
       ''student_school'' \<mapsto> PStr ''West'']]"

text \<open>Five incidents whose hour buckets are 9am, 2pm, 11am, Unknown and 12pm, in this
  order; the times are written in the three accepted formats.\<close>

definition five_hours :: "row list" where
  "five_hours =
     [[''incident_time'' \<mapsto> PStr ''9:15 AM''],
      [''incident_time'' \<mapsto> PStr '' 2:05:59 pm''],
      [''incident_time'' \<mapsto> PStr ''11:00 AM''],
      [''incident_location'' \<mapsto> PStr ''Gym''],
      [''incident_time'' \<mapsto> PStr ''12:45'']]"

text \<open>An incident whose time is written on the 24-hour clock.\<close>

definition afternoon_row :: row where
  "afternoon_row = [''incident_time'' \<mapsto> PStr ''14:30'', ''incident_location'' \<mapsto> PStr ''Gym'']"

text \<open>Eight incidents on two Mondays, three on 1 January 2024 and five on 8 January 2024,
  the latter written with hyphens, and one incident with the invalid date 13/45/2024.\<close>

definition on_date :: "string \<Rightarrow> row" where
  "on_date s = [''incident_date'' \<mapsto> PStr s, ''grade_level'' \<mapsto> PInt 9]"

definition two_mondays :: "row list" where
  "two_mondays =
     [on_date ''01/08/2024'', on_date ''1/1/2024'', on_date ''01-08-2024'', on_date ''01/01/2024'',
      on_date ''13/45/2024'', on_date ''1-8-2024'', on_date ''01/08/2024'', on_date ''01/01/2024'',
      on_date ''01/08/2024'']"

section \<open>Facts about dictionaries and tallies\<close>

lemma first_seen_Nil: "first_seen [] = []"
  by (simp add: first_seen_def)

lemma first_seen_snoc:
  "first_seen (xs @ [x]) = (if x \<in> set xs then first_seen xs else first_seen xs @ [x])"
  by (simp add: first_seen_def)

lemma set_first_seen: "set (first_seen xs) = set xs"
  by (simp add: first_seen_def)

lemma distinct_first_seen: "distinct (first_seen xs)"
  by (simp add: first_seen_def)


lemma dict_set_absent:
  "k \<notin> set ks \<Longrightarrow> dict_set (map (\<lambda>x. (x, f x)) ks) k v = map (\<lambda>x. (x, f x)) ks @ [(k, v)]"
  by (induction ks) auto

lemma dict_set_present:
  "k \<in> set ks \<Longrightarrow> distinct ks \<Longrightarrow>
   dict_set (map (\<lambda>x. (x, f x)) ks) k v = map (\<lambda>x. (x, if x = k then v else f x)) ks"
  by (induction ks) auto

lemma dict_get_tabulated:
  "dict_get (map (\<lambda>x. (x, f x)) ks) k dflt = (if k \<in> set ks then f k else dflt)"
  by (induction ks) (auto simp: dict_get_def)

lemma map_fst_dict_set:
  "map fst (dict_set d k v) = (if k \<in> set (map fst d) then map fst d else map fst d @ [k])"
  by (induction d) force+

text \<open>Tallying a sequence of keys gives, per distinct key in first-seen order, its number
  of occurrences.\<close>

lemma tally_keys:
  "foldl bump [] ks = map (\<lambda>k. (k, count_list ks k)) (first_seen ks)"
proof (induction ks rule: rev_induct)
  case Nil
  show ?case by (simp add: first_seen_Nil)
next
  case (snoc k ks)
  let ?T = "map (\<lambda>x. (x, count_list ks x)) (first_seen ks)"
  let ?c = "count_list (ks @ [k])"
  have step: "foldl bump [] (ks @ [k]) = bump ?T k"
    using snoc by simp
  show ?case
  proof (cases "k \<in> set ks")
    case True
    have fs: "first_seen (ks @ [k]) = first_seen ks"
      using True by (simp add: first_seen_snoc)
    have "bump ?T k = map (\<lambda>x. (x, if x = k then count_list ks k + 1 else count_list ks x))
                          (first_seen ks)"
      using True by (simp add: bump_def dict_get_tabulated set_first_seen dict_set_present
            distinct_first_seen)
    also have "\<dots> = map (\<lambda>x. (x, ?c x)) (first_seen ks)"
      by (rule map_cong) auto
    finally show ?thesis
      unfolding step fs .
  next
    case False
    then have absent: "k \<notin> set (first_seen ks)"
      by (simp add: set_first_seen)
    have fs: "first_seen (ks @ [k]) = first_seen ks @ [k]"
      using False by (simp add: first_seen_snoc)
    have same: "?T = map (\<lambda>x. (x, ?c x)) (first_seen ks)"
      by (rule map_cong) (use absent in auto)
    have one: "?c k = 1"
      using False by simp
    have "bump ?T k = ?T @ [(k, 1)]"
      unfolding bump_def dict_get_tabulated using absent by (simp add: dict_set_absent)
    also have "\<dots> = map (\<lambda>x. (x, ?c x)) (first_seen ks @ [k])"
      unfolding map_append same list.map one ..
    finally show ?thesis
      unfolding step fs .
  qed
qed

lemma tally_rows:
  "foldl (\<lambda>d r. let k = f r in dict_set d k (dict_get d k 0 + 1)) [] data
     = map (\<lambda>k. (k, count_list (map f data) k)) (first_seen (map f data))"
proof -
  have "foldl (\<lambda>d r. let k = f r in dict_set d k (dict_get d k 0 + 1)) [] data
          = foldl bump [] (map f data)"
    by (simp add: foldl_map bump_def Let_def)
  then show ?thesis by (simp add: tally_keys)
qed

lemma count_list_length_filter: "count_list (map f xs) k = length (filter (\<lambda>x. f x = k) xs)"
  by (induction xs) auto

lemma sum_count_first_seen: "sum_list (map (count_list ks) (first_seen ks)) = length ks"
proof -
  have "sum_list (map (count_list ks) (first_seen ks)) = sum (count_list ks) (set ks)"
    by (metis distinct_first_seen set_first_seen sum.distinct_set_conv_list)
  then show ?thesis by (simp add: sum_count_set)
qed

lemma row_get_keys:
  "row_get r ''grade_level'' (PStr ''Unknown'') = grade_key r"
  "row_get r ''incident_location'' (PStr ''Unknown'') = location_key r"
  "row_get r ''subtype_name'' (PStr ''Unknown'') = subtype_key r"
  "row_get r ''student_name'' (PStr ''Unknown'') = student_key r"
  "row_get r ''entry_author'' (PStr ''Unknown'') = author_key r"
  "row_get r ''student_school'' (PStr ''Unknown Building'') = school_key r"
  by (simp_all add: row_get_def grade_key_def location_key_def subtype_key_def
        student_key_def author_key_def school_key_def)

lemma count_by_grade_table:
  "count_by_grade data
     = map (\<lambda>k. (k, count_list (map grade_key data) k)) (first_seen (map grade_key data))"
  unfolding count_by_grade_def row_get_keys by (rule tally_rows)

lemma count_by_location_table:
  "count_by_location data
     = map (\<lambda>k. (k, count_list (map location_key data) k)) (first_seen (map location_key data))"
  unfolding count_by_location_def row_get_keys by (rule tally_rows)

lemma count_by_subtype_table:
  "count_by_subtype data
     = map (\<lambda>k. (k, count_list (map subtype_key data) k)) (first_seen (map subtype_key data))"
  unfolding count_by_subtype_def row_get_keys by (rule tally_rows)



section \<open>Partitioning\<close>

lemma dict_set_last:
  "k \<notin> fst ` set d \<Longrightarrow> dict_set (d @ [(k, v)]) k w = d @ [(k, w)]"
  by (induction d) auto

lemma dict_get_last:
  "k \<notin> fst ` set d \<Longrightarrow> dict_get (d @ [(k, v)]) k dflt = v"
  by (induction d) (auto simp: dict_get_def)

lemma building_groups_table:
  "building_groups data
     = map (\<lambda>k. (k, filter (\<lambda>r. school_key r = k) data)) (first_seen (map school_key data))"
proof (induction data rule: rev_induct)
  case Nil
  show ?case by (simp add: building_groups_def first_seen_Nil)
next
  case (snoc r rs)
  let ?k = "school_key r"
  let ?ks = "map school_key rs"
  let ?g = "\<lambda>k. filter (\<lambda>r. school_key r = k) rs"
  let ?g' = "\<lambda>k. filter (\<lambda>r. school_key r = k) (rs @ [r])"
  let ?G = "map (\<lambda>k. (k, ?g k)) (first_seen ?ks)"
  have keys: "set (map fst ?G) = set ?ks"
    by (simp add: set_first_seen comp_def)
  have "building_groups (rs @ [r]) =
      (let groups' = (if ?k \<notin> set (map fst (building_groups rs))
                      then dict_set (building_groups rs) ?k [] else building_groups rs)
       in dict_set groups' ?k (dict_get groups' ?k [] @ [r]))"
    by (simp only: building_groups_def foldl_append foldl.simps row_get_keys Let_def)
  then have step: "building_groups (rs @ [r]) =
      (let groups' = (if ?k \<notin> set (map fst ?G) then dict_set ?G ?k [] else ?G)
       in dict_set groups' ?k (dict_get groups' ?k [] @ [r]))"
    unfolding snoc .
  show ?case
  proof (cases "?k \<in> set ?ks")
    case True
    have fs: "first_seen (map school_key (rs @ [r])) = first_seen ?ks"
      using True by (simp add: first_seen_snoc)
    have "building_groups (rs @ [r]) = dict_set ?G ?k (dict_get ?G ?k [] @ [r])"
      unfolding step keys using True by (simp add: Let_def)
    also have "\<dots> = map (\<lambda>x. (x, if x = ?k then ?g ?k @ [r] else ?g x)) (first_seen ?ks)"
      using True by (simp add: dict_get_tabulated set_first_seen dict_set_present
          distinct_first_seen)
    also have "\<dots> = map (\<lambda>x. (x, ?g' x)) (first_seen ?ks)"
      by (rule map_cong) auto
    finally show ?thesis unfolding fs .
  next
    case False
    then have absent: "?k \<notin> set (first_seen ?ks)"
      by (simp add: set_first_seen)
    then have absent': "?k \<notin> fst ` set ?G"
      by (simp add: image_iff)
    have fs: "first_seen (map school_key (rs @ [r])) = first_seen ?ks @ [?k]"
      using False by (simp add: first_seen_snoc)
    have same: "?G = map (\<lambda>x. (x, ?g' x)) (first_seen ?ks)"
      by (rule map_cong) (use absent in auto)
    have "?g ?k = []"
      using False by (force simp: filter_empty_conv image_iff)
    then have new: "?g' ?k = [r]"
      by simp
    have "building_groups (rs @ [r]) = ?G @ [(?k, [r])]"
      unfolding step keys using False absent absent'
      by (simp add: Let_def dict_set_absent dict_set_last dict_get_last)
    also have "\<dots> = map (\<lambda>x. (x, ?g' x)) (first_seen ?ks @ [?k])"
      unfolding map_append same list.map new ..
    finally show ?thesis unfolding fs .
  qed
qed

lemma mset_concat_filter_keys:
  "distinct ks \<Longrightarrow>
   mset (concat (map (\<lambda>k. filter (\<lambda>r. f r = k) xs) ks)) = filter_mset (\<lambda>r. f r \<in> set ks) (mset xs)"
proof (induction ks)
  case Nil
  show ?case by simp
next
  case (Cons k ks)
  have "filter_mset (\<lambda>r. f r \<in> set (k # ks)) (mset xs)
          = filter_mset (\<lambda>r. f r = k) (mset xs) + filter_mset (\<lambda>r. f r \<in> set ks) (mset xs)"
    using Cons.prems by (induction xs) auto
  then show ?case using Cons by simp
qed

lemma filter_mset_all: "(\<forall>x \<in> set xs. P x) \<Longrightarrow> filter_mset P (mset xs) = mset xs"
  by (induction xs) auto

text \<open>
  Claim C5.  Grouping by \<^verbatim>\<open>student_school\<close> (a missing field reads as
  \<^verbatim>\<open>"Unknown Building"\<close>) visits the buildings in the order in which their distinct
  values first appear; the subset of a building is exactly the records with that value, in
  input order; every record lies in exactly one subset; and the subsets together are the
  input collection as a multiset, so that no record is duplicated or dropped.
\<close>

theorem building_groups_partition:
  "map fst (building_groups data) = first_seen (map school_key data)
   \<and> (\<forall>(b, rs) \<in> set (building_groups data). rs = filter (\<lambda>r. school_key r = b) data)
   \<and> (\<forall>i < length data. \<exists>!j. j < length (building_groups data)
          \<and> school_key (data ! i) = fst (building_groups data ! j)
          \<and> data ! i \<in> set (snd (building_groups data ! j)))
   \<and> mset (concat (map snd (building_groups data))) = mset data"
proof -
  let ?ks = "first_seen (map school_key data)"
  let ?G = "building_groups data"
  have G: "?G = map (\<lambda>k. (k, filter (\<lambda>r. school_key r = k) data)) ?ks"
    by (rule building_groups_table)
  have keys: "map fst ?G = ?ks"
    unfolding G by (simp add: comp_def)
  have parts: "\<forall>(b, rs) \<in> set ?G. rs = filter (\<lambda>r. school_key r = b) data"
    unfolding G by auto
  have len: "length ?G = length ?ks"
    unfolding G by simp
  have nth: "?G ! j = (?ks ! j, filter (\<lambda>r. school_key r = ?ks ! j) data)" if "j < length ?ks" for j
    unfolding G using that by simp
  have one: "\<exists>!j. j < length ?G \<and> school_key (data ! i) = fst (?G ! j)
                 \<and> data ! i \<in> set (snd (?G ! j))" if i: "i < length data" for i
  proof -
    have "school_key (data ! i) \<in> set ?ks"
      using i by (simp add: set_first_seen)
    then obtain j where j: "j < length ?ks" "?ks ! j = school_key (data ! i)"
      by (auto simp: in_set_conv_nth)
    show ?thesis
    proof (rule ex1I [of _ j])
      show "j < length ?G \<and> school_key (data ! i) = fst (?G ! j) \<and> data ! i \<in> set (snd (?G ! j))"
        using j i by (simp add: len nth)
    next
      fix j'
      assume "j' < length ?G \<and> school_key (data ! i) = fst (?G ! j')
              \<and> data ! i \<in> set (snd (?G ! j'))"
      then have "j' < length ?ks" "?ks ! j' = ?ks ! j"
        using j by (simp_all add: len nth)
      then show "j' = j"
        using j(1) distinct_first_seen [of "map school_key data"]
        by (simp add: nth_eq_iff_index_eq)
    qed
  qed
  have "mset (concat (map snd ?G)) = filter_mset (\<lambda>r. school_key r \<in> set ?ks) (mset data)"
    unfolding G using mset_concat_filter_keys [OF distinct_first_seen, of school_key data "map school_key data"]
    by (simp add: comp_def)
  also have "\<dots> = mset data"
    by (rule filter_mset_all) (simp add: set_first_seen)
  finally show ?thesis
    using keys parts one by blast
qed

theorem building_groups_partition_witness:
  "map fst (building_groups scenario) = [PStr ''East'', PStr ''West'']
   \<and> (PStr ''East'', [scenario ! 0, scenario ! 1]) \<in> set (building_groups scenario)
   \<and> [scenario ! 0, scenario ! 1] = filter (\<lambda>r. school_key r = PStr ''East'') scenario
   \<and> (0::nat) < length scenario
   \<and> (\<exists>!j. j < length (building_groups scenario)
          \<and> school_key (scenario ! 0) = fst (building_groups scenario ! j)
          \<and> scenario ! 0 \<in> set (snd (building_groups scenario ! j)))
   \<and> size (mset (concat (map snd (building_groups scenario)))) = 3"
proof -
  note part = building_groups_partition [of scenario]
  have keys: "first_seen (map school_key scenario) = [PStr ''East'', PStr ''West'']"
    by (simp add: scenario_def school_key_def first_seen_def)
  have east: "(PStr ''East'', [scenario ! 0, scenario ! 1]) \<in> set (building_groups scenario)"
    by (simp add: scenario_def building_groups_def row_get_def dict_get_def Let_def)
  have len: "(0::nat) < length scenario"
    by (simp add: scenario_def)
  from part have c1: "map fst (building_groups scenario) = [PStr ''East'', PStr ''West'']"
    unfolding keys by (rule conjunct1)
  from part have "\<forall>(b, rs) \<in> set (building_groups scenario).
                   rs = filter (\<lambda>r. school_key r = b) scenario"
    by blast
  with east have c2: "[scenario ! 0, scenario ! 1] = filter (\<lambda>r. school_key r = PStr ''East'') scenario"
    by blast
  from part len have c3: "\<exists>!j. j < length (building_groups scenario)
          \<and> school_key (scenario ! 0) = fst (building_groups scenario ! j)
          \<and> scenario ! 0 \<in> set (snd (building_groups scenario ! j))"
    by blast
  from part have "mset (concat (map snd (building_groups scenario))) = mset scenario"
    by blast
  then have "size (mset (concat (map snd (building_groups scenario)))) = size (mset scenario)"
    by (rule arg_cong)
  then have c4: "size (mset (concat (map snd (building_groups scenario)))) = 3"
    by (simp add: scenario_def)
  from c1 east c2 len c3 c4 show ?thesis
    by (intro conjI)
qed

section \<open>Parsing and labelling hours\<close>

lemma digit_in_val: "digit_in a b c \<Longrightarrow> a \<le> digit_val c \<and> digit_val c \<le> b"
  by (auto simp: digit_in_def digit_val_def)

lemma rx_two_range:
  "(v, r) \<in> set (rx_two a b c d s) \<Longrightarrow> 10 * a + c \<le> v \<and> v \<le> 10 * b + d"
  by (auto simp: rx_two_def split: list.splits if_splits dest!: digit_in_val)

lemma rx_one_range: "(v, r) \<in> set (rx_one a b s) \<Longrightarrow> a \<le> v \<and> v \<le> b"
  by (auto simp: rx_one_def split: list.splits if_splits dest!: digit_in_val)

lemma rx_I_range: "(v, r) \<in> set (rx_I s) \<Longrightarrow> 1 \<le> v \<and> v \<le> 12"
  by (auto simp: rx_I_def dest!: rx_two_range rx_one_range)

lemma rx_H_range: "(v, r) \<in> set (rx_H s) \<Longrightarrow> v < 24"
  by (auto simp: rx_H_def dest!: rx_two_range rx_one_range)

lemma hour_of_I_range: "1 \<le> i \<Longrightarrow> i \<le> 12 \<Longrightarrow> hour_of_I i pm < 24"
  by (simp add: hour_of_I_def)

lemma format_matches_hour:
  "((h, m, sec), rest) \<in> set (format_matches fmt s) \<Longrightarrow> h < 24"
  by (cases fmt) (auto dest!: rx_I_range rx_H_range intro: hour_of_I_range)

lemma strptime_hour:
  assumes "strptime s fmt = Some t"
  shows "\<exists>h m sec. h < 24 \<and> t = (1900, 1, 1, h, m, sec)"
proof -
  from assms obtain h m sec rest ms where ms: "format_matches fmt s = ((h, m, sec), rest) # ms"
    and t: "t = (1900, 1, 1, h, m, sec)"
    by (auto simp: strptime_def split: list.splits if_splits)
  from ms have "((h, m, sec), rest) \<in> set (format_matches fmt s)"
    by simp
  then have "h < 24" by (rule format_matches_hour)
  with t show ?thesis by blast
qed

lemma hour_label_table:
  "hour_label (y, mo, d, 0, mi, s) = ''12am''"
  "hour_label (y, mo, d, 1, mi, s) = ''1am''"
  "hour_label (y, mo, d, 2, mi, s) = ''2am''"
  "hour_label (y, mo, d, 3, mi, s) = ''3am''"
  "hour_label (y, mo, d, 4, mi, s) = ''4am''"
  "hour_label (y, mo, d, 5, mi, s) = ''5am''"
  "hour_label (y, mo, d, 6, mi, s) = ''6am''"
  "hour_label (y, mo, d, 7, mi, s) = ''7am''"
  "hour_label (y, mo, d, 8, mi, s) = ''8am''"
  "hour_label (y, mo, d, 9, mi, s) = ''9am''"
  "hour_label (y, mo, d, 10, mi, s) = ''10am''"
  "hour_label (y, mo, d, 11, mi, s) = ''11am''"
  "hour_label (y, mo, d, 12, mi, s) = ''12pm''"
  "hour_label (y, mo, d, 13, mi, s) = ''1pm''"
  "hour_label (y, mo, d, 14, mi, s) = ''2pm''"
  "hour_label (y, mo, d, 15, mi, s) = ''3pm''"
  "hour_label (y, mo, d, 16, mi, s) = ''4pm''"
  "hour_label (y, mo, d, 17, mi, s) = ''5pm''"
  "hour_label (y, mo, d, 18, mi, s) = ''6pm''"
  "hour_label (y, mo, d, 19, mi, s) = ''7pm''"
  "hour_label (y, mo, d, 20, mi, s) = ''8pm''"
  "hour_label (y, mo, d, 21, mi, s) = ''9pm''"
  "hour_label (y, mo, d, 22, mi, s) = ''10pm''"
  "hour_label (y, mo, d, 23, mi, s) = ''11pm''"
  by (simp_all add: hour_label_def strftime_Ip_def dt_hour_def pad2_def digit_char_def lower_def
        lower_char_def lstrip_zero_def)

lemma strptime_label_table:
  "strptime ''12am'' F_Ip = Some (1900, 1, 1, 0, 0, 0)"
  "strptime ''1am'' F_Ip = Some (1900, 1, 1, 1, 0, 0)"
  "strptime ''2am'' F_Ip = Some (1900, 1, 1, 2, 0, 0)"
  "strptime ''3am'' F_Ip = Some (1900, 1, 1, 3, 0, 0)"
  "strptime ''4am'' F_Ip = Some (1900, 1, 1, 4, 0, 0)"
  "strptime ''5am'' F_Ip = Some (1900, 1, 1, 5, 0, 0)"
  "strptime ''6am'' F_Ip = Some (1900, 1, 1, 6, 0, 0)"
  "strptime ''7am'' F_Ip = Some (1900, 1, 1, 7, 0, 0)"
  "strptime ''8am'' F_Ip = Some (1900, 1, 1, 8, 0, 0)"
  "strptime ''9am'' F_Ip = Some (1900, 1, 1, 9, 0, 0)"
  "strptime ''10am'' F_Ip = Some (1900, 1, 1, 10, 0, 0)"
  "strptime ''11am'' F_Ip = Some (1900, 1, 1, 11, 0, 0)"
  "strptime ''12pm'' F_Ip = Some (1900, 1, 1, 12, 0, 0)"
  "strptime ''1pm'' F_Ip = Some (1900, 1, 1, 13, 0, 0)"
  "strptime ''2pm'' F_Ip = Some (1900, 1, 1, 14, 0, 0)"
  "strptime ''3pm'' F_Ip = Some (1900, 1, 1, 15, 0, 0)"
  "strptime ''4pm'' F_Ip = Some (1900, 1, 1, 16, 0, 0)"
  "strptime ''5pm'' F_Ip = Some (1900, 1, 1, 17, 0, 0)"
  "strptime ''6pm'' F_Ip = Some (1900, 1, 1, 18, 0, 0)"
  "strptime ''7pm'' F_Ip = Some (1900, 1, 1, 19, 0, 0)"
  "strptime ''8pm'' F_Ip = Some (1900, 1, 1, 20, 0, 0)"
  "strptime ''9pm'' F_Ip = Some (1900, 1, 1, 21, 0, 0)"
  "strptime ''10pm'' F_Ip = Some (1900, 1, 1, 22, 0, 0)"
  "strptime ''11pm'' F_Ip = Some (1900, 1, 1, 23, 0, 0)"
  by (simp_all add: strptime_def rx_I_def rx_two_def rx_one_def digit_in_def digit_val_def rx_p_def
        lower_char_def hour_of_I_def)

lemma hour_cases:
  "(h::nat) < 24 \<Longrightarrow> h \<in> {0, 1, 2, 3, 4, 5, 6, 7, 8, 9, 10, 11, 12, 13, 14, 15, 16, 17, 18, 19,
                       20, 21, 22, 23}"
  by (simp; presburger)

lemma label_reparse:
  "h < 24 \<Longrightarrow> strptime (hour_label (y, mo, d, h, mi, s)) F_Ip = Some (1900, 1, 1, h, 0, 0)"
  by (drule hour_cases) (elim insertE emptyE; simp only: hour_label_table strptime_label_table)

lemma label_not_unknown:
  "h < 24 \<Longrightarrow> hour_label (y, mo, d, h, mi, s) \<noteq> ''Unknown''"
  by (drule hour_cases) (elim insertE emptyE; simp only: hour_label_table; simp)

text \<open>Every label the program derives from a parsed time parses again under
  \<^verbatim>\<open>"%I%p"\<close>, to the hour it came from.\<close>

lemma parsed_label:
  assumes "strptime s fmt = Some t"
  shows "hour_label t \<noteq> ''Unknown'' \<and> dt_hour t < 24
         \<and> strptime (hour_label t) F_Ip = Some (1900, 1, 1, dt_hour t, 0, 0)"
proof -
  from strptime_hour [OF assms] obtain h m sec where "h < 24" "t = (1900, 1, 1, h, m, sec)"
    by blast
  then show ?thesis
    by (simp add: label_reparse label_not_unknown dt_hour_def)
qed

lemma hour_bucket_cases:
  "hour_bucket row = ''Unknown'' \<or> (\<exists>h < 24. strptime (hour_bucket row) F_Ip = Some (1900, 1, 1, h, 0, 0))"
proof -
  have "\<exists>h < 24. strptime (hour_label t) F_Ip = Some (1900, 1, 1, h, 0, 0)"
    if "strptime s fmt = Some t" for s fmt t
    using parsed_label [OF that] by blast
  then show ?thesis
    unfolding hour_bucket_def Let_def by (simp split: option.split)
qed

lemma count_by_hour_row_counts:
  "hour_counts (count_by_hour_row st row) = bump (hour_counts st) (hour_bucket row)"
  by (simp add: count_by_hour_row_def hour_bucket_def Let_def split: option.split)

lemma count_by_hour_loop_counts:
  "hour_counts (foldl count_by_hour_row st data) = foldl bump (hour_counts st) (map hour_bucket data)"
  by (induction data arbitrary: st) (simp_all add: count_by_hour_row_counts)

lemma hour_counts_table:
  "hour_counts (count_by_hour_loop data)
     = map (\<lambda>k. (k, count_list (map hour_bucket data) k)) (first_seen (map hour_bucket data))"
  by (simp add: count_by_hour_loop_def count_by_hour_loop_counts tally_keys)

section \<open>The hour counts and the hour by location breakdown\<close>

lemma keyed_total:
  "(\<forall>x \<in> set xs. \<exists>k. f x = Some k) \<Longrightarrow> keyed f xs = Some (map (\<lambda>x. (the (f x), x)) xs)"
  by (induction xs) auto

lemma insort_key_decorated:
  "insort_key fst (g x, x) (map (\<lambda>x. (g x, x)) ys) = map (\<lambda>x. (g x, x)) (insort_key g x ys)"
  by (induction ys) auto

lemma sort_key_decorated:
  "sort_key fst (map (\<lambda>x. (g x, x)) xs) = map (\<lambda>x. (g x, x)) (sort_key g xs)"
  by (induction xs) (simp_all add: insort_key_decorated)

lemma sorted_by_total:
  assumes "\<forall>x \<in> set xs. \<exists>k. f x = Some k"
  shows "sorted_by f xs = Inr (sort_key (\<lambda>x. the (f x)) xs)"
  using keyed_total [OF assms]
  by (simp add: sorted_by_def sort_key_decorated comp_def)

lemma dict_item_tabulated:
  "k \<in> set ks \<Longrightarrow> dict_item (map (\<lambda>x. (x, f x)) ks) k = Inr (f k)"
  by (induction ks) (auto simp: dict_item_def)

lemma rows_for_tabulated:
  "set qs \<subseteq> set ks \<Longrightarrow> rows_for (map (\<lambda>x. (x, f x)) ks) qs = Inr (map (\<lambda>x. (x, f x)) qs)"
  by (induction qs) (simp_all add: dict_item_tabulated)

text \<open>Making sure that a key is present, with the count it has or zero.\<close>

lemma ensure_key_tabulated:
  assumes "distinct ks" and "k \<notin> set ks \<Longrightarrow> f k = 0"
  shows "dict_set (map (\<lambda>x. (x, f x)) ks) k (dict_get (map (\<lambda>x. (x, f x)) ks) k 0)
           = map (\<lambda>x. (x, f x)) (if k \<in> set ks then ks else ks @ [k])"
proof (cases "k \<in> set ks")
  case True
  then have "dict_set (map (\<lambda>x. (x, f x)) ks) k (dict_get (map (\<lambda>x. (x, f x)) ks) k 0)
              = map (\<lambda>x. (x, if x = k then f k else f x)) ks"
    using assms(1) by (simp add: dict_get_tabulated dict_set_present)
  also have "\<dots> = map (\<lambda>x. (x, f x)) ks"
    by (rule map_cong) auto
  finally show ?thesis using True by simp
next
  case False
  then show ?thesis
    using assms(2) by (simp add: dict_get_tabulated dict_set_absent)
qed

lemma count_by_hour_rows:
  fixes data :: "row list"
  defines "bs \<equiv> map hour_bucket data"
  shows "count_by_hour data
           = Inr (map (\<lambda>k. (k, count_list bs k))
                    (sort_key hour_key (filter (\<lambda>h. h \<noteq> ''Unknown'') (first_seen bs)) @ [''Unknown'']))"
proof -
  let ?c = "count_list bs"
  let ?ks = "first_seen bs"
  let ?ks' = "if ''Unknown'' \<in> set ?ks then ?ks else ?ks @ [''Unknown'']"
  let ?hs = "filter (\<lambda>h. h \<noteq> ''Unknown'') ?ks"
  have loop: "hour_counts (count_by_hour_loop data) = map (\<lambda>k. (k, ?c k)) ?ks"
    unfolding bs_def by (rule hour_counts_table)
  have zero: "?c ''Unknown'' = 0" if "''Unknown'' \<notin> set ?ks"
    using that by (simp add: set_first_seen)
  have ensured: "dict_set (map (\<lambda>k. (k, ?c k)) ?ks) ''Unknown''
                    (dict_get (map (\<lambda>k. (k, ?c k)) ?ks) ''Unknown'' 0) = map (\<lambda>k. (k, ?c k)) ?ks'"
    by (rule ensure_key_tabulated) (simp_all add: distinct_first_seen zero)
  have keys: "filter (\<lambda>h. h \<noteq> ''Unknown'') (map fst (map (\<lambda>k. (k, ?c k)) ?ks')) = ?hs"
    by (simp add: comp_def)
  have "\<forall>x \<in> set ?hs. \<exists>k. strptime x F_Ip = Some k"
    using hour_bucket_cases by (fastforce simp: set_first_seen bs_def)
  then have sorted: "sorted_by (\<lambda>x. strptime x F_Ip) ?hs = Inr (sort_key hour_key ?hs)"
    unfolding hour_key_def by (rule sorted_by_total)
  have "set (sort_key hour_key ?hs @ [''Unknown'']) \<subseteq> set ?ks'"
    by auto
  then have rows: "rows_for (map (\<lambda>k. (k, ?c k)) ?ks') (sort_key hour_key ?hs @ [''Unknown''])
                     = Inr (map (\<lambda>k. (k, ?c k)) (sort_key hour_key ?hs @ [''Unknown'']))"
    by (rule rows_for_tabulated)
  show ?thesis
    unfolding count_by_hour_def Let_def loop ensured keys sorted using rows by simp
qed

lemma grouped_fold:
  "foldl (\<lambda>d r. dict_set d (key r) (upd (dict_get d (key r) e) r)) [] data
     = map (\<lambda>k. (k, foldl upd e (filter (\<lambda>r. key r = k) data))) (first_seen (map key data))"
proof (induction data rule: rev_induct)
  case Nil
  show ?case by (simp add: first_seen_Nil)
next
  case (snoc r rs)
  let ?k = "key r"
  let ?ks = "first_seen (map key rs)"
  let ?g = "\<lambda>k. foldl upd e (filter (\<lambda>r. key r = k) rs)"
  let ?g' = "\<lambda>k. foldl upd e (filter (\<lambda>r. key r = k) (rs @ [r]))"
  let ?T = "map (\<lambda>k. (k, ?g k)) ?ks"
  have step: "foldl (\<lambda>d r. dict_set d (key r) (upd (dict_get d (key r) e) r)) [] (rs @ [r])
                = dict_set ?T ?k (upd (dict_get ?T ?k e) r)"
    unfolding foldl_append snoc by simp
  show ?case
  proof (cases "?k \<in> set (map key rs)")
    case True
    have fs: "first_seen (map key (rs @ [r])) = ?ks"
      using True by (simp add: first_seen_snoc)
    have "dict_set ?T ?k (upd (dict_get ?T ?k e) r)
            = map (\<lambda>x. (x, if x = ?k then upd (?g ?k) r else ?g x)) ?ks"
      using True by (simp add: dict_get_tabulated set_first_seen dict_set_present
          distinct_first_seen)
    also have "\<dots> = map (\<lambda>x. (x, ?g' x)) ?ks"
      by (rule map_cong) auto
    finally show ?thesis unfolding step fs .
  next
    case False
    then have absent: "?k \<notin> set ?ks"
      by (simp add: set_first_seen)
    have fs: "first_seen (map key (rs @ [r])) = ?ks @ [?k]"
      using False by (simp add: first_seen_snoc)
    have same: "?T = map (\<lambda>x. (x, ?g' x)) ?ks"
      by (rule map_cong) (use absent in auto)
    have "filter (\<lambda>r. key r = ?k) rs = []"
      using False by (force simp: filter_empty_conv image_iff)
    then have new: "?g' ?k = upd e r"
      by simp
    have "dict_set ?T ?k (upd (dict_get ?T ?k e) r) = ?T @ [(?k, upd e r)]"
      using absent by (simp add: dict_get_tabulated dict_set_absent)
    also have "\<dots> = map (\<lambda>x. (x, ?g' x)) (?ks @ [?k])"
      unfolding map_append same list.map new ..
    finally show ?thesis unfolding step fs .
  qed
qed

lemma insort_key_map:
  "insort_key f (g x) (map g ys) = map g (insort_key (\<lambda>x. f (g x)) x ys)"
  by (induction ys) auto

lemma sort_key_map: "sort_key f (map g xs) = map g (sort_key (\<lambda>x. f (g x)) xs)"
  by (induction xs) (simp_all add: insort_key_map)

lemma hourly_location_row_eq:
  "hourly_location_row counts row
     = dict_set counts (location_hour row) (bump (dict_get counts (location_hour row) []) (location_key row))"
  by (simp add: hourly_location_row_def location_hour_def Let_def row_get_keys)

text \<open>The locations counted under an hour, as a tally of the rows of that hour.\<close>

lemma hourly_location_counts_table:
  "foldl hourly_location_row [] data
     = map (\<lambda>h. (h, foldl bump [] (map location_key (filter (\<lambda>r. location_hour r = h) data))))
         (first_seen (map location_hour data))"
proof -
  have "foldl hourly_location_row [] data
          = foldl (\<lambda>d r. dict_set d (location_hour r)
                            ((\<lambda>inner r. bump inner (location_key r)) (dict_get d (location_hour r) []) r))
              [] data"
    by (simp add: hourly_location_row_eq [abs_def])
  also have "\<dots> = map (\<lambda>h. (h, foldl (\<lambda>inner r. bump inner (location_key r)) []
                                     (filter (\<lambda>r. location_hour r = h) data)))
                       (first_seen (map location_hour data))"
    by (rule grouped_fold)
  finally show ?thesis
    by (simp add: foldl_map)
qed

lemma location_hour_cases:
  "location_hour row = ''Unknown''
   \<or> (\<exists>h < 24. strptime (location_hour row) F_Ip = Some (1900, 1, 1, h, 0, 0))"
proof -
  have "\<exists>h < 24. strptime (hour_label t) F_Ip = Some (1900, 1, 1, h, 0, 0)"
    if "strptime s fmt = Some t" for s fmt t
    using parsed_label [OF that] by blast
  then show ?thesis
    unfolding location_hour_def Let_def by (simp split: option.split)
qed

lemma hourly_location_rows:
  fixes data :: "row list"
  defines "inner h \<equiv> foldl bump [] (map location_key (filter (\<lambda>r. location_hour r = h) data))"
  shows "hourly_location data
           = Inr (concat (map (\<lambda>h. map (\<lambda>(location, count). (h, location, count)) (inner h))
                            (sort_key group_key (first_seen (map location_hour data)))))"
proof -
  let ?ks = "first_seen (map location_hour data)"
  let ?f = "\<lambda>x :: string \<times> (pyval \<times> nat) list.
              if fst x \<noteq> ''Unknown'' then strptime (fst x) F_Ip else Some datetime_max"
  have counts: "foldl hourly_location_row [] data = map (\<lambda>h. (h, inner h)) ?ks"
    unfolding inner_def by (rule hourly_location_counts_table)
  have "\<exists>k. ?f (h, inner h) = Some k" if "h \<in> set (map location_hour data)" for h
  proof -
    from that obtain row where h: "h = location_hour row" by auto
    show ?thesis
    proof (cases "h = ''Unknown''")
      case True
      then show ?thesis by (simp only: fst_conv if_False simp_thms) blast
    next
      case False
      with h location_hour_cases [of row] obtain t where "strptime h F_Ip = Some t"
        by blast
      with False show ?thesis by (simp only: fst_conv if_True simp_thms) blast
    qed
  qed
  then have "\<forall>x \<in> set (map (\<lambda>h. (h, inner h)) ?ks). \<exists>k. ?f x = Some k"
    by (auto simp: set_first_seen)
  then have "sorted_by ?f (map (\<lambda>h. (h, inner h)) ?ks)
               = Inr (sort_key (\<lambda>x. the (?f x)) (map (\<lambda>h. (h, inner h)) ?ks))"
    by (rule sorted_by_total)
  also have "sort_key (\<lambda>x. the (?f x)) (map (\<lambda>h. (h, inner h)) ?ks)
               = map (\<lambda>h. (h, inner h)) (sort_key group_key ?ks)"
    by (simp add: sort_key_map group_key_def [abs_def] if_distrib [of the] cong: if_cong)
  finally have sorted: "sorted_by ?f (map (\<lambda>h. (h, inner h)) ?ks)
                          = Inr (map (\<lambda>h. (h, inner h)) (sort_key group_key ?ks))" .
  show ?thesis
    unfolding hourly_location_def Let_def counts sorted by (simp add: comp_def)
qed

section \<open>Totals and row counts\<close>

lemma sum_tabulated_first_seen:
  "sum_list (map snd (map (\<lambda>k. (k, count_list ks k)) (first_seen ks))) = length ks"
  using sum_count_first_seen [of ks] by (simp add: comp_def)

lemma sum_list_sort_key:
  fixes c :: "'a \<Rightarrow> nat"
  shows "sum_list (map c (sort_key f xs)) = sum_list (map c xs)"
proof -
  have "mset (map c (sort_key f xs)) = mset (map c xs)"
    by simp
  then show ?thesis
    by (metis sum_mset_sum_list)
qed

lemma sum_without_key:
  fixes c :: "'a \<Rightarrow> nat"
  assumes "distinct ks" and "k \<notin> set ks \<Longrightarrow> c k = 0"
  shows "sum_list (map c (filter (\<lambda>x. x \<noteq> k) ks)) + c k = sum_list (map c ks)"
  using assms
proof (induction ks)
  case Nil
  then show ?case by simp
next
  case (Cons x ks)
  show ?case
  proof (cases "x = k")
    case True
    then have "k \<notin> set ks" using Cons.prems(1) by simp
    then have "filter (\<lambda>x. x \<noteq> k) ks = ks"
      by (auto simp: filter_id_conv)
    with True show ?thesis by simp
  next
    case False
    have "sum_list (map c (filter (\<lambda>x. x \<noteq> k) ks)) + c k = sum_list (map c ks)"
    proof (cases "k \<in> set ks")
      case True
      then show ?thesis using Cons by simp
    next
      case False
      then have "c k = 0" using Cons.prems(2) \<open>x \<noteq> k\<close> by simp
      moreover have "filter (\<lambda>x. x \<noteq> k) ks = ks"
        using False by (auto simp: filter_id_conv)
      ultimately show ?thesis by simp
    qed
    with False show ?thesis by simp
  qed
qed


lemma count_by_hour_sum:
  "\<exists>rows. count_by_hour data = Inr rows \<and> sum_list (map snd rows) = length data"
proof -
  let ?bs = "map hour_bucket data"
  let ?c = "count_list ?bs"
  let ?hs = "filter (\<lambda>h. h \<noteq> ''Unknown'') (first_seen ?bs)"
  have zero: "?c ''Unknown'' = 0" if "''Unknown'' \<notin> set (first_seen ?bs)"
    using that by (simp add: set_first_seen)
  have "sum_list (map ?c (sort_key hour_key ?hs)) + ?c ''Unknown'' = sum_list (map ?c (first_seen ?bs))"
    unfolding sum_list_sort_key using distinct_first_seen zero by (rule sum_without_key)
  also have "\<dots> = length data"
    by (simp add: sum_count_first_seen)
  finally show ?thesis
    by (simp add: count_by_hour_rows comp_def)
qed


lemma tally_sum: "sum_list (map snd (foldl bump [] ks)) = length ks"
  by (simp only: tally_keys sum_tabulated_first_seen)

lemma sum_list_map_concat:
  fixes f :: "'a \<Rightarrow> nat"
  shows "sum_list (map f (concat (map g xs))) = sum_list (map (\<lambda>x. sum_list (map f (g x))) xs)"
  by (induction xs) simp_all

lemma hourly_location_sum:
  "\<exists>rows. hourly_location data = Inr rows
          \<and> sum_list (map (\<lambda>(hour, location, count). count) rows) = length data"
proof -
  let ?hs = "map location_hour data"
  let ?inner = "\<lambda>h. foldl bump [] (map location_key (filter (\<lambda>r. location_hour r = h) data))"
  let ?rows = "concat (map (\<lambda>h. map (\<lambda>(location, count). (h, location, count)) (?inner h))
                        (sort_key group_key (first_seen ?hs)))"
  have inner: "sum_list (map (\<lambda>(hour, location, count). count)
                  (map (\<lambda>(location, count). (h, location, count)) (?inner h)))
                = count_list ?hs h" for h
  proof -
    have "map (\<lambda>(hour, location, count). count)
             (map (\<lambda>(location, count). (h, location, count)) (?inner h)) = map snd (?inner h)"
      by (simp add: comp_def case_prod_unfold)
    then show ?thesis
      by (simp only: tally_sum length_map count_list_length_filter)
  qed
  have "sum_list (map (\<lambda>(hour, location, count). count) ?rows)
          = sum_list (map (count_list ?hs) (sort_key group_key (first_seen ?hs)))"
    by (simp only: sum_list_map_concat inner)
  also have "\<dots> = length data"
    by (simp add: sum_list_sort_key sum_count_first_seen)
  finally show ?thesis
    by (simp add: hourly_location_rows)
qed

lemma scenario_length: "length scenario = 3"
  by (simp add: scenario_def)

text \<open>
  Claim C10.  In each of the five counting metrics (grade, location, subtype, hour, hour by
  location) the counts of the output rows add up to the number of records: every record is
  counted exactly once, the records counted under \<^verbatim>\<open>"Unknown"\<close> included.  The
  two hour-ordered metrics return rows rather than raising.
\<close>

theorem counts_sum_to_total:
  "sum_list (map snd (count_by_grade data)) = length data
   \<and> sum_list (map snd (count_by_location data)) = length data
   \<and> sum_list (map snd (count_by_subtype data)) = length data
   \<and> (\<exists>rows. count_by_hour data = Inr rows \<and> sum_list (map snd rows) = length data)
   \<and> (\<exists>rows. hourly_location data = Inr rows
          \<and> sum_list (map (\<lambda>(hour, location, count). count) rows) = length data)"
proof -
  have "sum_list (map snd (count_by_grade data)) = length data"
    using sum_tabulated_first_seen [of "map grade_key data"]
    by (simp only: count_by_grade_table length_map)
  moreover have "sum_list (map snd (count_by_location data)) = length data"
    using sum_tabulated_first_seen [of "map location_key data"]
    by (simp only: count_by_location_table length_map)
  moreover have "sum_list (map snd (count_by_subtype data)) = length data"
    using sum_tabulated_first_seen [of "map subtype_key data"]
    by (simp only: count_by_subtype_table length_map)
  ultimately show ?thesis
    using count_by_hour_sum [of data] hourly_location_sum [of data] by blast
qed

theorem counts_sum_to_total_witness:
  "sum_list (map snd (count_by_grade scenario)) = 3
   \<and> sum_list (map snd (count_by_location scenario)) = 3
   \<and> sum_list (map snd (count_by_subtype scenario)) = 3
   \<and> (\<exists>rows. count_by_hour scenario = Inr rows \<and> sum_list (map snd rows) = 3)
   \<and> (\<exists>rows. hourly_location scenario = Inr rows
          \<and> sum_list (map (\<lambda>(hour, location, count). count) rows) = 3)"
  using counts_sum_to_total [of scenario] unfolding scenario_length .

section \<open>Order of the hour counts, and the number of rows\<close>

lemma hour_label_hour: "hour_label (y, mo, d, h, mi, s) = hour_label (1900, 1, 1, h, 0, 0)"
  by (simp add: hour_label_def strftime_Ip_def dt_hour_def)

lemma hour_bucket_label:
  "hour_bucket row = ''Unknown'' \<or> (\<exists>h < 24. hour_bucket row = hour_label (1900, 1, 1, h, 0, 0))"
proof -
  have "\<exists>h < 24. hour_label t = hour_label (1900, 1, 1, h, 0, 0)"
    if "strptime s fmt = Some t" for s fmt t
    using strptime_hour [OF that] hour_label_hour by metis
  then show ?thesis
    unfolding hour_bucket_def Let_def by (simp split: option.split)
qed

lemma hour_key_label: "h < 24 \<Longrightarrow> hour_key (hour_label (1900, 1, 1, h, 0, 0)) = (1900, 1, 1, h, 0, 0)"
  by (simp add: hour_key_def label_reparse del: One_nat_def)

lemma datetime_hour_less:
  "((1900, 1, 1, h, 0, 0) :: datetime) < (1900, 1, 1, h', 0, 0) \<longleftrightarrow> h < h'"
  by (simp add: less_prod_def)

text \<open>Labels of hours, sorted by the key of the program, are in strictly increasing order of
  the hour.\<close>

lemma sorted_labels:
  assumes labels: "\<forall>k \<in> set ks. \<exists>h < 24. k = hour_label (1900, 1, 1, h, 0, 0)"
    and "distinct ks"
  shows "\<exists>hs. map (\<lambda>k. strptime k F_Ip) (sort_key hour_key ks) = map (\<lambda>h. Some (1900, 1, 1, h, 0, 0)) hs
              \<and> sorted_wrt (<) hs \<and> (\<forall>h \<in> set hs. h < 24)"
proof -
  let ?K = "sort_key hour_key ks"
  let ?hs = "map (\<lambda>k. dt_hour (hour_key k)) ?K"
  have label: "\<exists>h < 24. k = hour_label (1900, 1, 1, h, 0, 0)" if "k \<in> set ?K" for k
    using that labels by simp
  have parse: "strptime k F_Ip = Some (1900, 1, 1, dt_hour (hour_key k), 0, 0)
               \<and> hour_key k = (1900, 1, 1, dt_hour (hour_key k), 0, 0)
               \<and> dt_hour (hour_key k) < 24
               \<and> k = hour_label (1900, 1, 1, dt_hour (hour_key k), 0, 0)" if "k \<in> set ?K" for k
  proof -
    from label [OF that] obtain h where h: "h < 24" "k = hour_label (1900, 1, 1, h, 0, 0)"
      by blast
    then have "hour_key k = (1900, 1, 1, h, 0, 0)"
      by (simp add: hour_key_label del: One_nat_def)
    with h show ?thesis
      by (simp add: label_reparse dt_hour_def del: One_nat_def)
  qed
  have inj: "inj_on hour_key (set ?K)"
  proof (rule inj_onI)
    fix a b assume "a \<in> set ?K" "b \<in> set ?K" "hour_key a = hour_key b"
    then show "a = b" using parse [of a] parse [of b] by metis
  qed
  have "sorted (map hour_key ?K)"
    by (rule sorted_sort_key)
  moreover have "distinct (map hour_key ?K)"
    using inj \<open>distinct ks\<close> by (simp add: distinct_map)
  ultimately have "sorted_wrt (<) (map hour_key ?K)"
    by (simp add: strict_sorted_iff)
  then have "sorted_wrt (\<lambda>a b. hour_key a < hour_key b) ?K"
    by (simp add: sorted_wrt_map)
  then have "sorted_wrt (\<lambda>a b. dt_hour (hour_key a) < dt_hour (hour_key b)) ?K"
  proof (rule sorted_wrt_mono_rel [rotated])
    fix a b assume "a \<in> set ?K" "b \<in> set ?K" "hour_key a < hour_key b"
    then show "dt_hour (hour_key a) < dt_hour (hour_key b)"
      using parse [of a] parse [of b] datetime_hour_less by metis
  qed
  then have "sorted_wrt (<) ?hs"
    by (simp add: sorted_wrt_map)
  moreover have "map (\<lambda>k. strptime k F_Ip) ?K = map (\<lambda>h. Some (1900, 1, 1, h, 0, 0)) ?hs"
    using parse by (simp add: comp_def)
  moreover have "\<forall>h \<in> set ?hs. h < 24"
    using parse by auto
  ultimately show ?thesis by blast
qed

lemma count_by_hour_five:
  "count_by_hour five_hours
     = Inr [(''9am'', 1), (''11am'', 1), (''12pm'', 1), (''2pm'', 1), (''Unknown'', 1)]"
  by code_simp

lemma hour_bucket_five:
  "map hour_bucket five_hours = [''9am'', ''2pm'', ''11am'', ''Unknown'', ''12pm'']"
  by code_simp

text \<open>
  Claim C4.  \<^verbatim>\<open>count_by_hour\<close> always returns rows, of which the last is the
  \<^verbatim>\<open>"Unknown"\<close> row, present with count 0 when no record was bucketed to it (its
  count is the number of records bucketed to it); no other row is an
  \<^verbatim>\<open>"Unknown"\<close> row, and the rows before it are in strictly increasing order of the
  hour of the day their labels stand for.  Records with the buckets 9am, 2pm, 11am, Unknown
  and 12pm are output in the order 9am, 11am, 12pm, 2pm, Unknown.
\<close>

theorem count_by_hour_unknown_last:
  "(\<exists>rows hs. count_by_hour data
        = Inr (rows @ [(''Unknown'', length (filter (\<lambda>r. hour_bucket r = ''Unknown'') data))])
      \<and> ''Unknown'' \<notin> fst ` set rows
      \<and> map (\<lambda>(hour, count). strptime hour F_Ip) rows = map (\<lambda>h. Some (1900, 1, 1, h, 0, 0)) hs
      \<and> sorted_wrt (<) hs \<and> (\<forall>h \<in> set hs. h < 24))
   \<and> map hour_bucket five_hours = [''9am'', ''2pm'', ''11am'', ''Unknown'', ''12pm'']
   \<and> count_by_hour five_hours
        = Inr [(''9am'', 1), (''11am'', 1), (''12pm'', 1), (''2pm'', 1), (''Unknown'', 1)]"
proof -
  let ?bs = "map hour_bucket data"
  let ?ks = "filter (\<lambda>h. h \<noteq> ''Unknown'') (first_seen ?bs)"
  let ?rows = "map (\<lambda>k. (k, count_list ?bs k)) (sort_key hour_key ?ks)"
  have "\<forall>k \<in> set ?ks. \<exists>h < 24. k = hour_label (1900, 1, 1, h, 0, 0)"
    using hour_bucket_label by (fastforce simp: set_first_seen)
  moreover have "distinct ?ks"
    by (simp add: distinct_first_seen)
  ultimately obtain hs where hs:
    "map (\<lambda>k. strptime k F_Ip) (sort_key hour_key ?ks) = map (\<lambda>h. Some (1900, 1, 1, h, 0, 0)) hs"
    "sorted_wrt (<) hs" "\<forall>h \<in> set hs. h < 24"
    using sorted_labels by blast
  have "count_by_hour data
          = Inr (?rows @ [(''Unknown'', length (filter (\<lambda>r. hour_bucket r = ''Unknown'') data))])"
    by (simp add: count_by_hour_rows count_list_length_filter)
  moreover have "''Unknown'' \<notin> fst ` set ?rows"
    by (auto simp: image_iff)
  moreover have "map (\<lambda>(hour, count). strptime hour F_Ip) ?rows
                   = map (\<lambda>h. Some (1900, 1, 1, h, 0, 0)) hs"
    using hs(1) by (simp add: comp_def)
  ultimately show ?thesis
    using hs(2,3) hour_bucket_five count_by_hour_five by blast
qed

lemma scenario_no_unknown: "length (filter (\<lambda>r. hour_bucket r = ''Unknown'') scenario) = 0"
  by code_simp

theorem count_by_hour_unknown_last_witness:
  "\<exists>rows hs. count_by_hour scenario = Inr (rows @ [(''Unknown'', 0)])
      \<and> ''Unknown'' \<notin> fst ` set rows
      \<and> map (\<lambda>(hour, count). strptime hour F_Ip) rows = map (\<lambda>h. Some (1900, 1, 1, h, 0, 0)) hs
      \<and> sorted_wrt (<) hs \<and> (\<forall>h \<in> set hs. h < 24)"
  using count_by_hour_unknown_last [of scenario, THEN conjunct1] unfolding scenario_no_unknown .









section \<open>The hour bucket of the specification\<close>







lemma dict_get_rows:
  "dict_get (map (\<lambda>k. (k, f k)) ks) b 0 = (if b \<in> set ks then f b else (0::nat))"
  by (rule dict_get_tabulated)




text \<open>
  Claim C1 does not hold of the program.  \<^verbatim>\<open>hourly_location\<close> parses the time with
  the single pattern \<^verbatim>\<open>"%I:%M %p"\<close>, whereas \<^verbatim>\<open>count_by_hour\<close> tries three: an
  incident at \<^verbatim>\<open>"14:30"\<close>, and one at \<^verbatim>\<open>"2:30:15 PM"\<close>, is counted under
  \<^verbatim>\<open>"2pm"\<close> in the hour counts and under \<^verbatim>\<open>"Unknown"\<close> in the hour by location
  breakdown.
\<close>

theorem hourly_location_single_pattern:
  "hour_bucket afternoon_row = ''2pm''
   \<and> location_hour afternoon_row = ''Unknown''
   \<and> count_by_hour [afternoon_row] = Inr [(''2pm'', 1), (''Unknown'', 0)]
   \<and> hourly_location [afternoon_row] = Inr [(''Unknown'', PStr ''Gym'', 1)]
   \<and> hour_bucket [''incident_time'' \<mapsto> PStr ''2:30:15 PM''] = ''2pm''
   \<and> location_hour [''incident_time'' \<mapsto> PStr ''2:30:15 PM''] = ''Unknown''"
proof -
  have "hour_bucket afternoon_row = ''2pm''"
    by code_simp
  moreover have "location_hour afternoon_row = ''Unknown''"
    by code_simp
  moreover have "count_by_hour [afternoon_row] = Inr [(''2pm'', 1), (''Unknown'', 0)]"
    by code_simp
  moreover have "hourly_location [afternoon_row] = Inr [(''Unknown'', PStr ''Gym'', 1)]"
    by code_simp
  moreover have "hour_bucket [''incident_time'' \<mapsto> PStr ''2:30:15 PM''] = ''2pm''"
    by code_simp
  moreover have "location_hour [''incident_time'' \<mapsto> PStr ''2:30:15 PM''] = ''Unknown''"
    by code_simp
  ultimately show ?thesis
    by blast
qed

section \<open>Parsing and formatting dates\<close>

lemma digit_val_table:
  "digit_val CHR ''0'' = 0" "digit_val CHR ''1'' = 1" "digit_val CHR ''2'' = 2"
  "digit_val CHR ''3'' = 3" "digit_val CHR ''4'' = 4" "digit_val CHR ''5'' = 5"
  "digit_val CHR ''6'' = 6" "digit_val CHR ''7'' = 7" "digit_val CHR ''8'' = 8"
  "digit_val CHR ''9'' = 9"
  by (simp_all add: digit_val_def eval_nat_numeral)

lemma month_cases:
  "1 \<le> (m::nat) \<Longrightarrow> m \<le> 12 \<Longrightarrow> m \<in> {1, 2, 3, 4, 5, 6, 7, 8, 9, 10, 11, 12}"
  by (simp; presburger)

lemma day_cases:
  "1 \<le> (d::nat) \<Longrightarrow> d \<le> 31 \<Longrightarrow>
   d \<in> {1, 2, 3, 4, 5, 6, 7, 8, 9, 10, 11, 12, 13, 14, 15, 16, 17, 18, 19, 20, 21, 22, 23, 24, 25,
         26, 27, 28, 29, 30, 31}"
  by (simp; presburger)

lemma month_then_slash:
  assumes "1 \<le> m" "m \<le> 12"
  shows "concat (map (\<lambda>(m', s1). concat (map (F m') (rx_lit CHR ''/'' s1)))
                  (rx_I (pad2 m @ CHR ''/'' # rest))) = F m rest"
  using month_cases [OF assms]
  by (elim insertE emptyE; hypsubst)
     (simp_all add: rx_I_def rx_two_def rx_one_def digit_in_def digit_val_table pad2_def digit_char_def
        rx_lit_def numeral_2_eq_2)

lemma day_then_slash:
  assumes "1 \<le> d" "d \<le> 31"
  shows "concat (map (\<lambda>(d', s1). concat (map (F d') (rx_lit CHR ''/'' s1)))
                  (rx_d (pad2 d @ CHR ''/'' # rest))) = F d rest"
  using day_cases [OF assms]
  by (elim insertE emptyE; hypsubst)
     (simp_all add: rx_d_def rx_two_def rx_one_def digit_in_def digit_val_table pad2_def digit_char_def
        rx_lit_def numeral_2_eq_2)

lemma decimal_digits:
  fixes y :: nat
  shows "1000 * (y div 1000) + 100 * (y div 100 mod 10) + 10 * (y div 10 mod 10) + y mod 10 = y"
proof -
  have h: "y div 100 = y div 10 div 10" and t: "y div 1000 = y div 10 div 10 div 10"
    by (simp_all add: div_mult2_eq [symmetric])
  have "y = 10 * (y div 10) + y mod 10"
    by simp
  moreover have "y div 10 = 10 * (y div 10 div 10) + y div 10 mod 10"
    by simp
  moreover have "y div 10 div 10 = 10 * (y div 10 div 10 div 10) + y div 10 div 10 mod 10"
    by simp
  ultimately show ?thesis
    unfolding h t by linarith
qed

lemma digit_cases: "(k::nat) < 10 \<Longrightarrow> k \<in> {0, 1, 2, 3, 4, 5, 6, 7, 8, 9}"
  by (simp; presburger)

lemma digit_char_val: "k < 10 \<Longrightarrow> digit_in 0 9 (digit_char k) \<and> digit_val (digit_char k) = k"
  by (drule digit_cases)
     (elim insertE emptyE; hypsubst; simp add: digit_in_def digit_val_table digit_char_def numeral_2_eq_2)

lemma year_digits:
  assumes "y < 10000"
  shows "rx_Y (pad4 y @ rest) = [(y, rest)]"
proof -
  have "y div 1000 < 10" "y div 100 mod 10 < 10" "y div 10 mod 10 < 10" "y mod 10 < 10"
    using assms by simp_all
  then show ?thesis
    by (simp add: rx_Y_def pad4_def digit_char_val decimal_digits)
qed

lemma date_matches_formatted:
  assumes "1 \<le> m" "m \<le> 12" "1 \<le> d" "d \<le> 31" "y < 10000"
  shows "date_matches F_slash (strftime_mdY (y, m, d)) = [((y, m, d), [])]"
proof -
  have "date_matches F_slash (strftime_mdY (y, m, d))
          = map (\<lambda>(y', s5). ((y', m, d), s5)) (rx_Y (pad4 y @ []))"
    unfolding date_matches_def strftime_mdY_def prod.case separator.simps append_Cons append_Nil
      append_assoc
    by (simp only: month_then_slash [OF assms(1,2)] day_then_slash [OF assms(3,4)] append_Nil2)
  then show ?thesis
    using year_digits [OF assms(5), of "[]"] by simp
qed

lemma rx_d_range: "(v, r) \<in> set (rx_d s) \<Longrightarrow> 1 \<le> v \<and> v \<le> 31"
  by (auto simp: rx_d_def split: list.splits if_splits dest!: rx_two_range rx_one_range)

lemma date_matches_range:
  "((y, m, d), rest) \<in> set (date_matches fmt s) \<Longrightarrow> 1 \<le> m \<and> m \<le> 12 \<and> 1 \<le> d \<and> d \<le> 31"
  by (auto simp: date_matches_def dest!: rx_I_range rx_d_range)

lemma to_datetime_valid:
  assumes "to_datetime s fmt = Some dt"
  shows "valid_date dt"
proof -
  from assms obtain y m d rest ms where ms: "date_matches fmt s = ((y, m, d), rest) # ms"
    and dt: "dt = (y, m, d)" and ok: "d \<le> days_in_month y m" "in_bounds (y, m, d)"
    by (auto simp: to_datetime_def split: list.splits if_splits)
  from ms have "((y, m, d), rest) \<in> set (date_matches fmt s)"
    by simp
  then have "1 \<le> m \<and> m \<le> 12 \<and> 1 \<le> d \<and> d \<le> 31"
    by (rule date_matches_range)
  with dt ok show ?thesis
    by (simp add: valid_date_def)
qed

lemma days_in_month_le: "days_in_month y m \<le> 31"
  by (simp add: days_in_month_def)

lemma in_bounds_year: "in_bounds (y, m, d) \<Longrightarrow> y < 10000"
  by (auto simp: in_bounds_def less_eq_prod_def)

text \<open>A date the program has parsed, written as \<^verbatim>\<open>MM/DD/YYYY\<close>, parses to itself.\<close>

lemma to_datetime_formatted:
  assumes "valid_date dt"
  shows "to_datetime (strftime_mdY dt) F_slash = Some dt"
proof -
  obtain y m d where dt: "dt = (y, m, d)"
    by (cases dt) auto
  from assms dt have v: "1 \<le> m" "m \<le> 12" "1 \<le> d" "d \<le> days_in_month y m" "in_bounds (y, m, d)"
    by (simp_all add: valid_date_def)
  from v(4) have "d \<le> 31"
    using days_in_month_le [of y m] by linarith
  with v have "date_matches F_slash (strftime_mdY (y, m, d)) = [((y, m, d), [])]"
    by (intro date_matches_formatted in_bounds_year)
  then have "to_datetime (strftime_mdY (y, m, d)) F_slash = Some (y, m, d)"
    unfolding to_datetime_def using v(4,5) by simp
  with dt show ?thesis
    by (simp only:)
qed

lemma strftime_mdY_inj:
  assumes "valid_date a" "valid_date b" "strftime_mdY a = strftime_mdY b"
  shows "a = b"
proof -
  have "Some a = to_datetime (strftime_mdY a) F_slash"
    using to_datetime_formatted [OF assms(1)] by (rule sym)
  also have "\<dots> = to_datetime (strftime_mdY b) F_slash"
    by (simp only: assms(3))
  also have "\<dots> = Some b"
    by (rule to_datetime_formatted [OF assms(2)])
  finally show ?thesis
    by (simp only: option.inject)
qed

lemma weekday_name: "strftime_A dt \<in> set week_order"
proof -
  have "weekday dt < length week_order"
    by (simp add: weekday_def week_order_def)
  then show ?thesis
    unfolding strftime_A_def by (rule nth_mem)
qed

lemma row_date_valid: "row_date row = Some dt \<Longrightarrow> valid_date dt"
  by (auto simp: row_date_def Let_def split: if_splits option.splits dest: to_datetime_valid)

lemma set_parsed_dates: "set (parsed_dates data) = {dt. \<exists>r \<in> set data. row_date r = Some dt}"
  by (force simp: parsed_dates_def map_filter_def image_iff)

lemma parsed_dates_valid: "dt \<in> set (parsed_dates data) \<Longrightarrow> valid_date dt"
  by (auto simp: set_parsed_dates dest: row_date_valid)

section \<open>The loops of the date counts\<close>

lemma count_by_date_row_cases:
  "count_by_date_row st row =
     (case row_date row of
        None \<Rightarrow> st\<lparr>date_printed := date_printed (count_by_date_row st row)\<rparr>
      | Some d \<Rightarrow> st\<lparr>date_counts := bump (date_counts st) (strftime_mdY d),
                      day_totals := bump (day_totals st) (strftime_A d)\<rparr>)"
  by (simp add: count_by_date_row_def row_date_def Let_def split: option.split)

lemma parsed_dates_Cons:
  "parsed_dates (r # rs) = (case row_date r of None \<Rightarrow> parsed_dates rs | Some d \<Rightarrow> d # parsed_dates rs)"
  by (simp add: parsed_dates_def map_filter_simps split: option.split)

lemma count_by_date_fold:
  "date_counts (foldl count_by_date_row st data)
     = foldl bump (date_counts st) (map strftime_mdY (parsed_dates data))
   \<and> day_totals (foldl count_by_date_row st data)
     = foldl bump (day_totals st) (map strftime_A (parsed_dates data))"
proof (induction data arbitrary: st)
  case Nil
  show ?case by (simp add: parsed_dates_def map_filter_simps)
next
  case (Cons r rs)
  show ?case
  proof (cases "row_date r")
    case None
    then have "date_counts (count_by_date_row st r) = date_counts st"
      and "day_totals (count_by_date_row st r) = day_totals st"
      by (subst count_by_date_row_cases, simp)+
    with None show ?thesis
      using Cons [of "count_by_date_row st r"] by (simp add: parsed_dates_Cons)
  next
    case (Some d)
    then have "date_counts (count_by_date_row st r) = bump (date_counts st) (strftime_mdY d)"
      and "day_totals (count_by_date_row st r) = bump (day_totals st) (strftime_A d)"
      by (subst count_by_date_row_cases, simp)+
    with Some show ?thesis
      using Cons [of "count_by_date_row st r"] by (simp add: parsed_dates_Cons)
  qed
qed

lemma count_by_date_loop_tables:
  "date_counts (count_by_date_loop data)
     = map (\<lambda>k. (k, count_list (map strftime_mdY (parsed_dates data)) k))
         (first_seen (map strftime_mdY (parsed_dates data)))"
  "day_totals (count_by_date_loop data)
     = map (\<lambda>k. (k, count_list (map strftime_A (parsed_dates data)) k))
         (first_seen (map strftime_A (parsed_dates data)))"
  by (simp_all add: count_by_date_loop_def count_by_date_fold tally_keys)

lemma first_seen_map_inj:
  "inj_on f (set xs) \<Longrightarrow> first_seen (map f xs) = map f (first_seen xs)"
proof (induction xs rule: rev_induct)
  case Nil
  show ?case by (simp add: first_seen_Nil)
next
  case (snoc x xs)
  then have "inj_on f (set xs)" and "f x \<in> f ` set xs \<longleftrightarrow> x \<in> set xs"
    by (auto simp: inj_on_def)
  with snoc.IH show ?case
    by (simp add: first_seen_snoc)
qed

text \<open>The second loop, over the items of a dictionary whose keys are formatted dates.\<close>

lemma day_counts_fold:
  assumes "\<forall>d \<in> set ds. valid_date d"
  shows "foldl day_counts_item (day_counts, out) (map (\<lambda>d. (strftime_mdY d, n d)) ds)
           = (foldl bump day_counts (map strftime_A ds), out)"
  using assms
proof (induction ds arbitrary: day_counts)
  case Nil
  show ?case by simp
next
  case (Cons d ds)
  then have "to_datetime (strftime_mdY d) F_slash = Some d"
    by (simp add: to_datetime_formatted)
  then have "day_counts_item (day_counts, out) (strftime_mdY d, n d)
               = (bump day_counts (strftime_A d), out)"
    by (simp add: day_counts_item_def)
  with Cons show ?case by simp
qed

lemma date_counts_by_date:
  "date_counts (count_by_date_loop data)
     = map (\<lambda>d. (strftime_mdY d, count_list (map strftime_mdY (parsed_dates data)) (strftime_mdY d)))
         (first_seen (parsed_dates data))"
proof -
  have "inj_on strftime_mdY (set (parsed_dates data))"
    by (rule inj_onI) (blast intro: strftime_mdY_inj parsed_dates_valid)
  then show ?thesis
    by (simp add: count_by_date_loop_tables first_seen_map_inj comp_def)
qed

lemma day_counts_table:
  "foldl day_counts_item ([], date_printed (count_by_date_loop data))
       (date_counts (count_by_date_loop data))
     = (foldl bump [] (map strftime_A (first_seen (parsed_dates data))),
        date_printed (count_by_date_loop data))"
  unfolding date_counts_by_date
  by (rule day_counts_fold) (simp add: set_first_seen parsed_dates_valid)

lemma averages_tabulated:
  assumes "\<forall>k \<in> set ks. dict_get day_counts k 0 \<noteq> 0"
  shows "averages rd day_counts (map (\<lambda>k. (k, t k)) ks)
           = Inr (map (\<lambda>k. (k, rd (t k) (dict_get day_counts k 0))) ks)"
  using assms by (induction ks) simp_all

lemma index_of_Some: "x \<in> set ws \<Longrightarrow> \<exists>i. index_of ws x = Some i"
  by (induction ws) auto

lemma index_of_nth:
  "distinct ws \<Longrightarrow> i < length ws \<Longrightarrow> index_of ws (ws ! i) = Some i"
proof (induction ws arbitrary: i)
  case Nil
  then show ?case by simp
next
  case (Cons w ws)
  show ?case
  proof (cases i)
    case 0
    then show ?thesis by simp
  next
    case (Suc j)
    with Cons.prems have "ws ! j \<in> set ws" "w \<notin> set ws" "j < length ws"
      by simp_all
    then have "w \<noteq> ws ! j" by auto
    with Suc Cons show ?thesis by simp
  qed
qed

lemma map_index_of:
  assumes "distinct ws"
  shows "map (\<lambda>w. the (index_of ws w)) ws = [0 ..< length ws]"
proof (rule nth_equalityI)
  show "length (map (\<lambda>w. the (index_of ws w)) ws) = length [0 ..< length ws]"
    by simp
next
  fix i assume "i < length (map (\<lambda>w. the (index_of ws w)) ws)"
  then show "map (\<lambda>w. the (index_of ws w)) ws ! i = [0 ..< length ws] ! i"
    using assms by (simp add: index_of_nth)
qed

text \<open>Sorting distinct members of a list by their position in it lists them as the list
  does.\<close>

lemma sort_by_position:
  assumes "distinct ws" "distinct ks" "set ks \<subseteq> set ws"
  shows "sort_key (\<lambda>k. the (index_of ws k)) ks = filter (\<lambda>w. w \<in> set ks) ws"
proof -
  let ?idx = "\<lambda>k. the (index_of ws k)"
  have inj: "inj_on ?idx (set ws)"
    using assms(1) by (metis distinct_map distinct_upt map_index_of)
  have "sorted (map ?idx ws)"
    using assms(1) by (simp add: map_index_of)
  then have s2: "sorted (map ?idx (filter (\<lambda>w. w \<in> set ks) ws))"
    by (rule sorted_filter)
  have d2: "distinct (map ?idx (filter (\<lambda>w. w \<in> set ks) ws))"
    using inj assms(1) by (auto simp: distinct_map intro: inj_on_subset)
  have s1: "sorted (map ?idx (sort_key ?idx ks))"
    by (rule sorted_sort_key)
  have d1: "distinct (map ?idx (sort_key ?idx ks))"
    using inj assms(2,3) by (auto simp: distinct_map intro: inj_on_subset)
  have "set (map ?idx (sort_key ?idx ks)) = set (map ?idx (filter (\<lambda>w. w \<in> set ks) ws))"
    using assms(3) by auto
  with s1 d1 s2 d2 have "map ?idx (sort_key ?idx ks) = map ?idx (filter (\<lambda>w. w \<in> set ks) ws)"
    by (rule sorted_distinct_set_unique)
  moreover have "inj_on ?idx (set (sort_key ?idx ks) \<union> set (filter (\<lambda>w. w \<in> set ks) ws))"
    using inj assms(3) by (auto intro: inj_on_subset)
  ultimately show ?thesis
    by (simp only: inj_on_map_eq_map)
qed

lemma distinct_week_order: "distinct week_order"
  by (simp add: week_order_def)

section \<open>The result of the date counts\<close>

lemma dict_get_tally: "dict_get (foldl bump [] ks) k 0 = count_list ks k"
proof (cases "k \<in> set ks")
  case True
  then show ?thesis by (simp add: tally_keys dict_get_tabulated set_first_seen)
next
  case False
  then have "count_list ks k = 0" by simp
  with False show ?thesis by (simp add: tally_keys dict_get_tabulated set_first_seen)
qed

lemma count_by_date_result:
  fixes data :: "row list"
  defines "ds \<equiv> parsed_dates data"
  shows "count_by_date rd data
           = Inr \<lparr>date_count_rows = map (\<lambda>k. (k, count_list (map strftime_mdY ds) k))
                                      (first_seen (map strftime_mdY ds)),
                  day_of_week_avg = map (\<lambda>day. (day, rd (count_list (map strftime_A ds) day)
                                                       (count_list (map strftime_A (first_seen ds)) day)))
                                      (filter (\<lambda>w. w \<in> set (map strftime_A ds)) week_order)\<rparr>"
proof -
  let ?A = strftime_A
  let ?keys = "first_seen (map ?A ds)"
  let ?dc = "foldl bump [] (map ?A (first_seen ds))"
  let ?g = "\<lambda>day. (day, rd (count_list (map ?A ds) day) (count_list (map ?A (first_seen ds)) day))"
  have day_counts: "fst (foldl day_counts_item ([], date_printed (count_by_date_loop data))
                          (date_counts (count_by_date_loop data))) = ?dc"
    unfolding ds_def by (simp add: day_counts_table)
  have totals: "day_totals (count_by_date_loop data) = map (\<lambda>k. (k, count_list (map ?A ds) k)) ?keys"
    unfolding ds_def by (rule count_by_date_loop_tables)
  have "count_list (map ?A (first_seen ds)) k \<noteq> 0" if "k \<in> set ?keys" for k
  proof -
    from that have "k \<in> set (map ?A (first_seen ds))"
      by (simp add: set_first_seen)
    then show ?thesis
      by (simp only: count_list_0_iff not_not)
  qed
  then have "\<forall>k \<in> set ?keys. dict_get ?dc k 0 \<noteq> 0"
    by (simp only: dict_get_tally) blast
  then have "averages rd ?dc (map (\<lambda>k. (k, count_list (map ?A ds) k)) ?keys)
               = Inr (map (\<lambda>k. (k, rd (count_list (map ?A ds) k) (dict_get ?dc k 0))) ?keys)"
    by (rule averages_tabulated)
  then have avgs: "averages rd ?dc (map (\<lambda>k. (k, count_list (map ?A ds) k)) ?keys) = Inr (map ?g ?keys)"
    by (simp only: dict_get_tally)
  have sub: "set ?keys \<subseteq> set week_order"
    by (auto simp: set_first_seen weekday_name)
  then have "\<forall>x \<in> set (map ?g ?keys). \<exists>i. index_of week_order (fst x) = Some i"
    by (auto intro: index_of_Some)
  then have "sorted_by (\<lambda>x. index_of week_order (fst x)) (map ?g ?keys)
               = Inr (sort_key (\<lambda>x. the (index_of week_order (fst x))) (map ?g ?keys))"
    by (rule sorted_by_total)
  also have "sort_key (\<lambda>x. the (index_of week_order (fst x))) (map ?g ?keys)
               = map ?g (sort_key (\<lambda>k. the (index_of week_order k)) ?keys)"
    by (simp add: sort_key_map)
  also have "sort_key (\<lambda>k. the (index_of week_order k)) ?keys
               = filter (\<lambda>w. w \<in> set ?keys) week_order"
    using distinct_week_order distinct_first_seen sub by (rule sort_by_position)
  finally have sorted: "sorted_by (\<lambda>x. index_of week_order (fst x)) (map ?g ?keys)
                          = Inr (map ?g (filter (\<lambda>w. w \<in> set (map ?A ds)) week_order))"
    by (simp only: set_first_seen)
  have rows: "date_counts (count_by_date_loop data)
                = map (\<lambda>k. (k, count_list (map strftime_mdY ds) k)) (first_seen (map strftime_mdY ds))"
    unfolding ds_def by (rule count_by_date_loop_tables)
  show ?thesis
    by (simp only: count_by_date_def Let_def day_counts)
       (simp only: totals avgs sum.case sorted rows)
qed

end
